theory Spec2Isabelle
  imports Complex_Main "HOL-Library.AList"
begin

section \<open>Python text and values\<close>

text \<open>
  A Python \<open>str\<close> is a sequence of code points. A \<^typ>\<open>char\<close> stands for one code
  point below 256 (the Latin-1 range), so a \<^typ>\<open>string\<close> is a Python string over that
  range. \<open>py_isspace\<close> is \<open>str.isspace\<close> on one character and \<open>py_lower\<close> is
  \<open>str.lower\<close> on one character, both by code point.
\<close>

definition py_isspace :: "char \<Rightarrow> bool" where
  "py_isspace c = (let n = (of_char c :: nat) in
     (9 \<le> n \<and> n \<le> 13) \<or> (28 \<le> n \<and> n \<le> 32) \<or> n = 133 \<or> n = 160)"

definition py_lower :: "char \<Rightarrow> char" where
  "py_lower c = (let n = (of_char c :: nat) in
     if (65 \<le> n \<and> n \<le> 90) \<or> (192 \<le> n \<and> n \<le> 214) \<or> (216 \<le> n \<and> n \<le> 222)
     then char_of (n + 32) else c)"

text \<open>\<open>s.strip()\<close> and \<open>s.lower()\<close>.\<close>

definition strip :: "string \<Rightarrow> string" where
  "strip s = rev (dropWhile py_isspace (rev (dropWhile py_isspace s)))"

definition lower :: "string \<Rightarrow> string" where
  "lower s = map py_lower s"

text \<open>
  The values that \<open>json.load\<close> and \<open>eval\<close> hand to the program: \<open>None\<close>, booleans,
  integers, strings, tuples, lists and dictionaries with string keys (in insertion order).
  Floating-point numbers are left out.
\<close>

datatype pyval =
    PNone
  | PBool bool
  | PInt int
  | PStr string
  | PTuple "pyval list"
  | PList "pyval list"
  | PDict "(string \<times> pyval) list"

text \<open>Truth value testing, as in \<open>if x:\<close> and \<open>not x\<close>.\<close>

fun truthy :: "pyval \<Rightarrow> bool" where
  "truthy PNone = False"
| "truthy (PBool b) = b"
| "truthy (PInt i) = (i \<noteq> 0)"
| "truthy (PStr s) = (s \<noteq> [])"
| "truthy (PTuple xs) = (xs \<noteq> [])"
| "truthy (PList xs) = (xs \<noteq> [])"
| "truthy (PDict kvs) = (kvs \<noteq> [])"

text \<open>\<open>type(x).__name__\<close>, used in the interpreter's error messages.\<close>

fun type_name :: "pyval \<Rightarrow> string" where
  "type_name PNone = ''NoneType''"
| "type_name (PBool b) = ''bool''"
| "type_name (PInt i) = ''int''"
| "type_name (PStr s) = ''str''"
| "type_name (PTuple xs) = ''tuple''"
| "type_name (PList xs) = ''list''"
| "type_name (PDict kvs) = ''dict''"

subsection \<open>\<open>repr\<close> and \<open>str\<close>\<close>

fun digits :: "nat \<Rightarrow> string" where
  "digits n = (if n < 10 then [''0123456789'' ! n]
               else digits (n div 10) @ [''0123456789'' ! (n mod 10)])"

definition repr_int :: "int \<Rightarrow> string" where
  "repr_int i = (if i < 0 then CHR ''-'' # digits (nat (- i)) else digits (nat i))"

definition hex2 :: "nat \<Rightarrow> string" where
  "hex2 n = [''0123456789abcdef'' ! (n div 16), ''0123456789abcdef'' ! (n mod 16)]"

definition py_isprintable :: "char \<Rightarrow> bool" where
  "py_isprintable c = (let n = (of_char c :: nat) in
     (32 \<le> n \<and> n < 127) \<or> (161 \<le> n \<and> n \<noteq> 173))"

text \<open>One character inside a string literal delimited by the quote \<open>q\<close>.\<close>

definition repr_char :: "char \<Rightarrow> char \<Rightarrow> string" where
  "repr_char q c =
     (if c = q \<or> c = CHR 0x5C then [CHR 0x5C, c]
      else if c = CHR 0x09 then [CHR 0x5C, CHR ''t'']
      else if c = CHR 0x0A then [CHR 0x5C, CHR ''n'']
      else if c = CHR 0x0D then [CHR 0x5C, CHR ''r'']
      else if py_isprintable c then [c]
      else [CHR 0x5C, CHR ''x''] @ hex2 (of_char c))"

text \<open>
  \<open>repr\<close> of a string: single quotes, unless the text holds a single quote and no double
  quote.
\<close>

definition repr_str :: "string \<Rightarrow> string" where
  "repr_str s =
     (let q = (if CHR 0x27 \<in> set s \<and> CHR 0x22 \<notin> set s then CHR 0x22 else CHR 0x27)
      in q # concat (map (repr_char q) s) @ [q])"

fun join :: "string \<Rightarrow> string list \<Rightarrow> string" where
  "join sep [] = []"
| "join sep [x] = x"
| "join sep (x # y # ys) = x @ sep @ join sep (y # ys)"

fun py_repr :: "pyval \<Rightarrow> string" where
  "py_repr PNone = ''None''"
| "py_repr (PBool b) = (if b then ''True'' else ''False'')"
| "py_repr (PInt i) = repr_int i"
| "py_repr (PStr s) = repr_str s"
| "py_repr (PTuple xs) =
     (case xs of [x] \<Rightarrow> ''('' @ py_repr x @ '',)''
      | _ \<Rightarrow> ''('' @ join '', '' (map py_repr xs) @ '')'')"
| "py_repr (PList xs) = ''['' @ join '', '' (map py_repr xs) @ '']''"
| "py_repr (PDict kvs) =
     ''{'' @ join '', '' (map (\<lambda>kv. repr_str (fst kv) @ '': '' @ py_repr (snd kv)) kvs) @ ''}''"

text \<open>\<open>str(x)\<close>: the text itself for a string, \<open>repr\<close> for everything else.\<close>

fun py_str :: "pyval \<Rightarrow> string" where
  "py_str (PStr s) = s"
| "py_str v = py_repr v"

section \<open>\<open>pipeline.py\<close>: the two pure helpers of \<open>TextToSQLPipeline\<close>\<close>

text \<open>
  \<open>_clean_sql\<close> is \<open>re.sub(r'```sql|```', '', query, flags=re.IGNORECASE).strip()\<close>.
  The substitution scans from the left; at each position the first alternative (three
  backquotes and the letters s, q, l in either case) is tried before the second (three
  backquotes alone), a match is dropped and the scan goes on behind it.
\<close>

definition fence :: "string \<Rightarrow> bool" where
  "fence s = (take 3 s = ''```'')"

definition fence_sql :: "string \<Rightarrow> bool" where
  "fence_sql s = (fence s \<and> 6 \<le> length s
      \<and> s ! 3 \<in> {CHR ''s'', CHR ''S''}
      \<and> s ! 4 \<in> {CHR ''q'', CHR ''Q''}
      \<and> s ! 5 \<in> {CHR ''l'', CHR ''L''})"

fun sub_fences :: "string \<Rightarrow> string" where
  "sub_fences [] = []"
| "sub_fences (c # cs) =
     (if fence_sql (c # cs) then sub_fences (drop 5 cs)
      else if fence (c # cs) then sub_fences (drop 2 cs)
      else c # sub_fences cs)"

definition clean_sql :: "string \<Rightarrow> string" where
  "clean_sql query = strip (sub_fences query)"

text \<open>A text holds a fence marker when three backquotes in a row occur in it.\<close>

fun has_fence :: "string \<Rightarrow> bool" where
  "has_fence [] = False"
| "has_fence (c # cs) = (fence (c # cs) \<or> has_fence cs)"

text \<open>
  \<open>_sanitize_result\<close>. The index \<open>raw_result[0]\<close> is read only on a non-empty list and
  \<open>raw_result[0][0]\<close> only on a tuple of length one, so neither can raise.
\<close>

definition sanitize_result :: "pyval \<Rightarrow> string" where
  "sanitize_result raw_result =
     (if \<not> truthy raw_result then ''[]''
      else case raw_result of
        PList (PTuple [x] # rows) \<Rightarrow> py_str x
      | _ \<Rightarrow> py_str raw_result)"

section \<open>Exceptions\<close>

text \<open>
  An exception is a value. \<open>Raised d\<close> is an exception raised by a collaborator (the
  database, a model backend, \<open>eval\<close>) whose \<open>str(e)\<close> is \<open>d\<close>. The others are raised by
  the interpreter or by pydantic and carry their message; \<open>KeyError\<close> carries the key,
  \<open>ValidationError\<close> the name of the rejected model (pydantic's own message text is not
  reproduced; the program never reads it). \<open>KeyboardInterrupt\<close> and \<open>SystemExit\<close>
  derive from \<open>BaseException\<close> and not from \<open>Exception\<close>: a clause
  \<open>except Exception\<close> does not catch them. \<open>is_Exception\<close> is
  \<open>isinstance(e, Exception)\<close>.
\<close>

datatype exn =
    Raised string
  | AttributeError string
  | TypeError string
  | KeyError string
  | UnicodeDecodeError string
  | ValidationError string
  | ValueError string
  | KeyboardInterrupt
  | SystemExit string

fun is_Exception :: "exn \<Rightarrow> bool" where
  "is_Exception KeyboardInterrupt = False"
| "is_Exception (SystemExit m) = False"
| "is_Exception x = True"

fun str_exn :: "exn \<Rightarrow> string" where
  "str_exn (Raised d) = d"
| "str_exn (AttributeError m) = m"
| "str_exn (TypeError m) = m"
| "str_exn (KeyError k) = repr_str k"
| "str_exn (UnicodeDecodeError m) = m"
| "str_exn (ValidationError m) = m"
| "str_exn (ValueError m) = m"
| "str_exn KeyboardInterrupt = []"
| "str_exn (SystemExit m) = m"

definition quoted :: "string \<Rightarrow> string" where
  "quoted s = CHR 0x27 # s @ [CHR 0x27]"

text \<open>\<open>d.get(k)\<close>: only a dictionary has the method.\<close>

fun dict_get :: "pyval \<Rightarrow> string \<Rightarrow> exn + pyval" where
  "dict_get (PDict kvs) k = Inr (case map_of kvs k of None \<Rightarrow> PNone | Some v \<Rightarrow> v)"
| "dict_get v k =
     Inl (AttributeError (quoted (type_name v) @ '' object has no attribute '' @ quoted ''get''))"

text \<open>\<open>d[k] = v\<close> with a string key: an existing key keeps its place, a new one goes last.\<close>

fun setitem :: "pyval \<Rightarrow> string \<Rightarrow> pyval \<Rightarrow> exn + pyval" where
  "setitem (PDict kvs) k v = Inr (PDict (AList.update k v kvs))"
| "setitem (PList xs) k v = Inl (TypeError ''list indices must be integers or slices, not str'')"
| "setitem d k v =
     Inl (TypeError (quoted (type_name d) @ '' object does not support item assignment''))"

text \<open>\<open>d[k]\<close> with a string key (messages of CPython 3.11 and later).\<close>

fun getitem :: "pyval \<Rightarrow> string \<Rightarrow> exn + pyval" where
  "getitem (PDict kvs) k = (case map_of kvs k of None \<Rightarrow> Inl (KeyError k) | Some v \<Rightarrow> Inr v)"
| "getitem (PStr s) k = Inl (TypeError (''string indices must be integers, not '' @ quoted ''str''))"
| "getitem (PList xs) k = Inl (TypeError ''list indices must be integers or slices, not str'')"
| "getitem (PTuple xs) k = Inl (TypeError ''tuple indices must be integers or slices, not str'')"
| "getitem d k = Inl (TypeError (quoted (type_name d) @ '' object is not subscriptable''))"

section \<open>\<open>models.py\<close>\<close>

text \<open>
  The two pydantic models. Durations are Python floats; they are modelled by real numbers.
  \<open>QueryResponse\<close> is declared first so that the plain name \<open>sql_query\<close> is the field of
  \<open>ExecutionLog\<close>; the field of the response is written \<open>QueryResponse.sql_query\<close>.
\<close>

record QueryResponse =
  question :: string
  answer :: string
  sql_query :: string
  execution_time :: real
  from_cache :: bool

record ExecutionLog =
  timestamp :: string
  user_prompt :: string
  sql_model :: string
  nlp_model :: string
  sql_prompt :: "string option"
  nlp_prompt :: "string option"
  sql_query :: "string option"
  result :: "string option"
  final_answer :: "string option"
  sql_generation_time :: real
  query_execution_time :: real
  answer_generation_time :: real
  total_duration :: real
  error :: "string option"
  success :: bool

text \<open>
  Constructing a \<open>QueryResponse\<close> validates the two text fields: anything but a string
  (also \<open>None\<close>) is rejected with a \<open>ValidationError\<close> (pydantic 2, whose \<open>model_dump\<close>
  the logger calls).
\<close>

definition QueryResponse_init ::
  "string \<Rightarrow> pyval \<Rightarrow> pyval \<Rightarrow> real \<Rightarrow> bool \<Rightarrow> exn + QueryResponse" where
  "QueryResponse_init q a s t c =
     (case a of
        PStr a' \<Rightarrow>
          (case s of
             PStr s' \<Rightarrow> Inr \<lparr>question = q, answer = a', QueryResponse.sql_query = s',
                               execution_time = t, from_cache = c\<rparr>
           | _ \<Rightarrow> Inl (ValidationError ''QueryResponse''))
      | _ \<Rightarrow> Inl (ValidationError ''QueryResponse''))"

section \<open>\<open>cache.py\<close>\<close>

text \<open>
  What the program can observe of a file: it does not exist; it exists and opening or
  reading it raises \<open>IOError\<close>; its bytes are not UTF-8 (reading raises
  \<open>UnicodeDecodeError\<close> with the given message); its text is not JSON (\<open>json.load\<close>
  raises \<open>JSONDecodeError\<close>); or its text is JSON and \<open>json.load\<close> returns the value.
  A path is writable when \<open>open(path, 'w')\<close> succeeds and is not writable when it
  raises \<open>IOError\<close>; a write that fails after the file was opened is not modelled.
  A path that holds a NUL character is no file name: \<open>os.path.exists\<close> answers
  \<open>False\<close> for it and \<open>open\<close> raises \<open>ValueError\<close>.
\<close>

datatype file_state = Missing | Unreadable | NotUtf8 string | NotJson | Json pyval

record filesystem =
  files :: "string \<Rightarrow> file_state"
  writable :: "string \<Rightarrow> bool"

definition path_exists :: "filesystem \<Rightarrow> string \<Rightarrow> bool" where
  "path_exists disk path = (CHR 0x00 \<notin> set path \<and> files disk path \<noteq> Missing)"

text \<open>\<open>json.dump\<close> followed by \<open>json.load\<close>: a tuple comes back as a list.\<close>

fun json_of :: "pyval \<Rightarrow> pyval" where
  "json_of (PTuple xs) = PList (map json_of xs)"
| "json_of (PList xs) = PList (map json_of xs)"
| "json_of (PDict kvs) = PDict (map (\<lambda>kv. (fst kv, json_of (snd kv))) kvs)"
| "json_of v = v"

text \<open>The attribute \<open>_cache\<close> is the field \<open>cache_obj\<close>.\<close>

record CacheManager =
  file_path :: string
  enabled :: bool
  cache_obj :: pyval

text \<open>
  \<open>_load_cache\<close>: the \<open>except\<close> clause names \<open>json.JSONDecodeError\<close> and \<open>IOError\<close>;
  \<open>UnicodeDecodeError\<close> is neither, so it leaves the method.
\<close>

definition load_cache :: "filesystem \<Rightarrow> CacheManager \<Rightarrow> exn + CacheManager" where
  "load_cache disk self =
     (if \<not> enabled self then Inr self
      else if \<not> path_exists disk (file_path self) then Inr self
      else case files disk (file_path self) of
        Missing \<Rightarrow> Inr self
      | Unreadable \<Rightarrow> Inr (self\<lparr>cache_obj := PDict []\<rparr>)
      | NotJson \<Rightarrow> Inr (self\<lparr>cache_obj := PDict []\<rparr>)
      | NotUtf8 m \<Rightarrow> Inl (UnicodeDecodeError m)
      | Json v \<Rightarrow> Inr (self\<lparr>cache_obj := v\<rparr>))"

definition CacheManager_init :: "string \<Rightarrow> bool \<Rightarrow> filesystem \<Rightarrow> exn + CacheManager" where
  "CacheManager_init path en disk =
     load_cache disk \<lparr>file_path = path, enabled = en, cache_obj = PDict []\<rparr>"

text \<open>
  \<open>_save_cache\<close> swallows \<open>IOError\<close> only; the \<open>ValueError\<close> of a path with a NUL
  character leaves the method.
\<close>

definition save_cache :: "CacheManager \<Rightarrow> filesystem \<Rightarrow> exn + filesystem" where
  "save_cache self disk =
     (if \<not> enabled self then Inr disk
      else if CHR 0x00 \<in> set (file_path self) then Inl (ValueError ''embedded null byte'')
      else if writable disk (file_path self)
      then Inr (disk\<lparr>files := (files disk)(file_path self := Json (json_of (cache_obj self)))\<rparr>)
      else Inr disk)"

definition CacheManager_get :: "CacheManager \<Rightarrow> string \<Rightarrow> exn + pyval" where
  "CacheManager_get self q =
     (if \<not> enabled self then Inr PNone
      else dict_get (cache_obj self) (lower (strip q)))"

text \<open>
  \<open>set\<close> changes the manager in place, so an exception of \<open>_save_cache\<close> leaves the
  new entry in memory: the result is the exception raised, if any, with the manager and
  the file system as they are at that point.
\<close>

definition CacheManager_set ::
  "string \<Rightarrow> pyval \<Rightarrow> CacheManager \<times> filesystem
     \<Rightarrow> exn option \<times> CacheManager \<times> filesystem" where
  "CacheManager_set q response_data = (\<lambda>(self, disk).
     if \<not> enabled self then (None, self, disk)
     else case setitem (cache_obj self) (lower (strip q)) response_data of
       Inl x \<Rightarrow> (Some x, self, disk)
     | Inr d \<Rightarrow>
         (let self' = self\<lparr>cache_obj := d\<rparr>
          in case save_cache self' disk of
               Inl x \<Rightarrow> (Some x, self', disk)
             | Inr disk' \<Rightarrow> (None, self', disk')))"

section \<open>\<open>logger_utils.py\<close>\<close>

text \<open>
  The logger has two handlers, the day's log file and the console. A line is kept as the
  message it was built from, not as formatted text. \<open>log_struct\<close> dumps the record and
  logs it while the console handler is taken off, so the record reaches the file only;
  its \<open>except\<close> branch is not reached, since dumping an \<open>ExecutionLog\<close> with
  \<open>default=str\<close> does not raise.
\<close>

datatype message =
    Processing string
  | ProcessingCached string
  | SqlGeneratedIn real
  | PipelineError string

datatype log_line = INFO message | ERROR message | EXECUTION_RECORD ExecutionLog

record DailyLogger =
  log_file :: "log_line list"
  console :: "log_line list"

definition log_info :: "message \<Rightarrow> DailyLogger \<Rightarrow> DailyLogger" where
  "log_info m lg = lg\<lparr>log_file := log_file lg @ [INFO m], console := console lg @ [INFO m]\<rparr>"

definition log_error :: "message \<Rightarrow> DailyLogger \<Rightarrow> DailyLogger" where
  "log_error m lg = lg\<lparr>log_file := log_file lg @ [ERROR m], console := console lg @ [ERROR m]\<rparr>"

definition log_struct :: "ExecutionLog \<Rightarrow> DailyLogger \<Rightarrow> DailyLogger" where
  "log_struct data lg = lg\<lparr>log_file := log_file lg @ [EXECUTION_RECORD data]\<rparr>"

section \<open>\<open>pipeline.py\<close>: \<open>TextToSQLPipeline.run\<close>\<close>

text \<open>
  The collaborators of a run: the clock (\<open>clock n\<close> is what the \<open>n\<close>-th call of
  \<open>time.time()\<close> returns), \<open>datetime.now().isoformat()\<close>, the two model names of
  \<open>config.py\<close>, the database (\<open>get_table_info\<close>, \<open>run\<close>), the two prompt templates
  (rendering a template from strings does not raise), the two model backends, each giving
  the text of its reply, and \<open>eval\<close>. A call that can raise returns \<open>Inl\<close> of the
  exception. Clock readings are floats, each an exact real number; the float expression
  \<open>round(t1 - t0, 2)\<close> is \<open>elapsed t1 t0\<close>, a parameter, since neither the float
  subtraction nor the rounding of floats is real arithmetic. The database and the answer template are handed \<open>log_entry.sql_query\<close> and
  \<open>log_entry.result\<close> as they are, fields of type \<open>Optional[str]\<close>.
\<close>

record env =
  clock :: "nat \<Rightarrow> real"
  elapsed :: "real \<Rightarrow> real \<Rightarrow> real"
  now_isoformat :: string
  SQL_MODEL :: string
  NLP_MODEL :: string
  get_table_info :: "exn + string"
  get_sql_prompt :: "string \<Rightarrow> string \<Rightarrow> string"
  sql_llm :: "string \<Rightarrow> exn + string"
  db_run :: "string option \<Rightarrow> exn + string"
  py_eval :: "string \<Rightarrow> exn + pyval"
  get_nlp_prompt :: "string \<Rightarrow> string option \<Rightarrow> string option \<Rightarrow> string"
  nlp_llm :: "string \<Rightarrow> exn + string"

text \<open>Calls to the database and to the model backends, with their argument.\<close>

datatype call =
    DbGetTableInfo
  | SqlLlmInvoke string
  | DbRun "string option"
  | NlpLlmInvoke string

text \<open>
  Everything a run can change: the cache manager and the file system behind it, the
  logger, the number of clock readings taken so far and the calls made so far.
\<close>

record world =
  cache :: CacheManager
  disk :: filesystem
  app_logger :: DailyLogger
  ticks :: nat
  calls :: "call list"

definition time_time :: "env \<Rightarrow> world \<Rightarrow> real \<times> world" where
  "time_time e w = (clock e (ticks w), w\<lparr>ticks := Suc (ticks w)\<rparr>)"

definition called :: "call \<Rightarrow> world \<Rightarrow> world" where
  "called c w = w\<lparr>calls := calls w @ [c]\<rparr>"

definition info :: "message \<Rightarrow> world \<Rightarrow> world" where
  "info m w = w\<lparr>app_logger := log_info m (app_logger w)\<rparr>"

text \<open>
  The body of the \<open>try\<close> statement is cut at its comments into three stages and the
  write to the cache. Each takes the log entry and the world and returns the exception it
  raised, if any, with the log entry and the world as they are at that point.
\<close>

type_synonym stage = "ExecutionLog \<times> world \<Rightarrow> exn option \<times> ExecutionLog \<times> world"

definition generate_sql :: "env \<Rightarrow> string \<Rightarrow> stage" where
  "generate_sql e q = (\<lambda>(log_entry, w).
     let (t0, w) = time_time e w;
         w = called DbGetTableInfo w
     in case get_table_info e of
          Inl x \<Rightarrow> (Some x, log_entry, w)
        | Inr schema \<Rightarrow>
            (let sql_prompt_val = get_sql_prompt e schema q;
                 log_entry = log_entry\<lparr>sql_prompt := Some sql_prompt_val\<rparr>;
                 w = called (SqlLlmInvoke sql_prompt_val) w
             in case sql_llm e sql_prompt_val of
                  Inl x \<Rightarrow> (Some x, log_entry, w)
                | Inr raw_sql \<Rightarrow>
                    (let log_entry = log_entry\<lparr>sql_query := Some (clean_sql raw_sql)\<rparr>;
                         (t1, w) = time_time e w;
                         log_entry = log_entry\<lparr>sql_generation_time := elapsed e t1 t0\<rparr>;
                         w = info (SqlGeneratedIn (sql_generation_time log_entry)) w
                     in (None, log_entry, w))))"

text \<open>
  The inner handler of the execution stage, \<open>except Exception as e\<close>, sets the
  placeholder result and raises the exception again; an exception that is no
  \<open>Exception\<close> passes it by.
\<close>

definition inner_handler :: "exn \<Rightarrow> ExecutionLog \<Rightarrow> ExecutionLog" where
  "inner_handler x log_entry =
     (if is_Exception x then log_entry\<lparr>result := Some ''Error executing query''\<rparr>
      else log_entry)"

definition execute_sql :: "env \<Rightarrow> stage" where
  "execute_sql e = (\<lambda>(log_entry, w).
     let (t0, w) = time_time e w;
         w = called (DbRun (sql_query log_entry)) w
     in case db_run e (sql_query log_entry) of
          Inl x \<Rightarrow> (Some x, inner_handler x log_entry, w)
        | Inr raw_res \<Rightarrow>
            (case py_eval e raw_res of
               Inl x \<Rightarrow> (Some x, inner_handler x log_entry, w)
             | Inr v \<Rightarrow>
                 (let log_entry = log_entry\<lparr>result := Some (sanitize_result v)\<rparr>;
                      (t1, w) = time_time e w;
                      log_entry = log_entry\<lparr>query_execution_time := elapsed e t1 t0\<rparr>
                  in (None, log_entry, w))))"

definition generate_answer :: "env \<Rightarrow> string \<Rightarrow> stage" where
  "generate_answer e q = (\<lambda>(log_entry, w).
     let (t0, w) = time_time e w;
         nlp_prompt_val = get_nlp_prompt e q (sql_query log_entry) (result log_entry);
         log_entry = log_entry\<lparr>nlp_prompt := Some nlp_prompt_val\<rparr>;
         w = called (NlpLlmInvoke nlp_prompt_val) w
     in case nlp_llm e nlp_prompt_val of
          Inl x \<Rightarrow> (Some x, log_entry, w)
        | Inr ans_res \<Rightarrow>
            (let log_entry = log_entry\<lparr>final_answer := Some (strip ans_res)\<rparr>;
                 (t1, w) = time_time e w;
                 log_entry = log_entry\<lparr>answer_generation_time := elapsed e t1 t0\<rparr>;
                 log_entry = log_entry\<lparr>success := True\<rparr>
             in (None, log_entry, w)))"

text \<open>An \<open>Optional[str]\<close> field as a Python value.\<close>

definition opt_str :: "string option \<Rightarrow> pyval" where
  "opt_str x = (case x of None \<Rightarrow> PNone | Some s \<Rightarrow> PStr s)"

definition save_to_cache :: "string \<Rightarrow> stage" where
  "save_to_cache q = (\<lambda>(log_entry, w).
     case CacheManager_set q
            (PDict [(''answer'', opt_str (final_answer log_entry)),
                    (''sql_query'', opt_str (sql_query log_entry))])
            (cache w, disk w) of
       (raised, c, d) \<Rightarrow> (raised, log_entry, w\<lparr>cache := c, disk := d\<rparr>))"

text \<open>Sequencing: a stage that raised ends the \<open>try\<close> body.\<close>

definition seq :: "stage \<Rightarrow> stage \<Rightarrow> stage" where
  "seq f g = (\<lambda>s. case f s of (Some x, s') \<Rightarrow> (Some x, s') | (None, s') \<Rightarrow> g s')"

definition stages :: "env \<Rightarrow> string \<Rightarrow> stage" where
  "stages e q = seq (generate_sql e q) (seq (execute_sql e) (generate_answer e q))"

definition try_body :: "env \<Rightarrow> string \<Rightarrow> stage" where
  "try_body e q = seq (stages e q) (save_to_cache q)"

text \<open>The \<open>except Exception\<close> clause and the \<open>finally\<close> clause.\<close>

definition except_clause :: "exn \<Rightarrow> ExecutionLog \<times> world \<Rightarrow> ExecutionLog \<times> world" where
  "except_clause x = (\<lambda>(log_entry, w).
     (log_entry\<lparr>error := Some (str_exn x), final_answer := Some (''Error: '' @ str_exn x)\<rparr>,
      w\<lparr>app_logger := log_error (PipelineError (str_exn x)) (app_logger w)\<rparr>))"

definition finally_clause ::
  "env \<Rightarrow> real \<Rightarrow> ExecutionLog \<times> world \<Rightarrow> ExecutionLog \<times> world" where
  "finally_clause e start_total = (\<lambda>(log_entry, w).
     let (t, w) = time_time e w;
         log_entry = log_entry\<lparr>total_duration := elapsed e t start_total\<rparr>
     in (log_entry, w\<lparr>app_logger := log_struct log_entry (app_logger w)\<rparr>))"

definition new_log_entry :: "env \<Rightarrow> string \<Rightarrow> ExecutionLog" where
  "new_log_entry e q =
     \<lparr>timestamp = now_isoformat e, user_prompt = q,
      sql_model = SQL_MODEL e, nlp_model = NLP_MODEL e,
      sql_prompt = None, nlp_prompt = None, sql_query = None, result = None,
      final_answer = None, sql_generation_time = 0, query_execution_time = 0,
      answer_generation_time = 0, total_duration = 0, error = None, success = False\<rparr>"

text \<open>
  The part of \<open>run\<close> behind the cache check: the \<open>try\<close> statement and the final
  \<open>return\<close>, where \<open>sql_query or "Failed"\<close> replaces an absent and an empty text alike.
  The clause \<open>except Exception\<close> handles an exception that is an \<open>Exception\<close>; any
  other (\<open>KeyboardInterrupt\<close>, \<open>SystemExit\<close>) passes it by, the \<open>finally\<close> clause
  runs all the same, and the exception leaves \<open>run\<close>.
\<close>

definition or_Failed :: "string option \<Rightarrow> string" where
  "or_Failed x = (case x of None \<Rightarrow> ''Failed'' | Some s \<Rightarrow> if s = [] then ''Failed'' else s)"

definition response :: "string \<Rightarrow> ExecutionLog \<Rightarrow> exn + QueryResponse" where
  "response q log_entry =
     QueryResponse_init q (opt_str (final_answer log_entry))
       (PStr (or_Failed (sql_query log_entry))) (total_duration log_entry) False"

definition run_uncached ::
  "env \<Rightarrow> string \<Rightarrow> real \<Rightarrow> ExecutionLog \<times> world \<Rightarrow> (exn + QueryResponse) \<times> world" where
  "run_uncached e q start_total s =
     (let (raised, s) = try_body e q s
      in case raised of
           None \<Rightarrow>
             (let (log_entry, w) = finally_clause e start_total s
              in (response q log_entry, w))
         | Some x \<Rightarrow>
             if is_Exception x then
               (let (log_entry, w) = finally_clause e start_total (except_clause x s)
                in (response q log_entry, w))
             else
               (let (log_entry, w) = finally_clause e start_total s
                in (Inl x, w)))"

text \<open>
  \<open>run\<close>. An exception of \<open>cache.get\<close>, of reading the cached entry or of building the
  response from it is outside the \<open>try\<close> statement and reaches the caller.
\<close>

definition run :: "env \<Rightarrow> string \<Rightarrow> world \<Rightarrow> (exn + QueryResponse) \<times> world" where
  "run e q w0 =
     (let log_entry = new_log_entry e q;
          (start_total, w) = time_time e w0
      in case CacheManager_get (cache w) q of
           Inl x \<Rightarrow> (Inl x, w)
         | Inr cached_data \<Rightarrow>
             if truthy cached_data then
               (let w = info (ProcessingCached q) w
                in case getitem cached_data ''answer'' of
                     Inl x \<Rightarrow> (Inl x, w)
                   | Inr a \<Rightarrow>
                       (case getitem cached_data ''sql_query'' of
                          Inl x \<Rightarrow> (Inl x, w)
                        | Inr sql \<Rightarrow> (QueryResponse_init q a sql 0 True, w)))
             else run_uncached e q start_total (log_entry, info (Processing q) w))"

text \<open>
  The log entry and the world as they are when the \<open>try\<close> statement is entered on a
  cache miss, whether what a stage raised passes \<open>except Exception\<close> by, and the
  execution records among the lines of a log.
\<close>

definition at_try :: "env \<Rightarrow> string \<Rightarrow> world \<Rightarrow> ExecutionLog \<times> world" where
  "at_try e q w0 = (new_log_entry e q, info (Processing q) (snd (time_time e w0)))"

text \<open>
  \<open>config.py\<close> builds \<open>DB_URI\<close> for the \<open>mysql+pymysql\<close> driver. MySQL rejects an
  empty statement (error 1065, \<open>Query was empty\<close>), and for a statement that yields no
  rows \<open>SQLDatabase.run\<close> returns the empty text, which \<open>eval\<close> rejects. Either way
  the execution stage cannot complete on an empty statement.
\<close>

definition rejects_empty_statement :: "env \<Rightarrow> bool" where
  "rejects_empty_statement e =
     (case db_run e (Some []) of
        Inl x \<Rightarrow> True
      | Inr raw_res \<Rightarrow> (case py_eval e raw_res of Inl x \<Rightarrow> True | Inr v \<Rightarrow> False))"

definition uncaught :: "exn option \<Rightarrow> bool" where
  "uncaught raised = (case raised of None \<Rightarrow> False | Some x \<Rightarrow> \<not> is_Exception x)"

fun records :: "log_line list \<Rightarrow> ExecutionLog list" where
  "records [] = []"
| "records (EXECUTION_RECORD r # ls) = r # records ls"
| "records (INFO m # ls) = records ls"
| "records (ERROR m # ls) = records ls"

text \<open>
  \<open>config.py\<close>: the cache file of the pipeline, which \<open>TextToSQLPipeline.__init__\<close>
  hands to \<open>CacheManager\<close>.
\<close>

definition CACHE_FILE :: string where
  "CACHE_FILE = ''query_cache.json''"

text \<open>
  Test doubles, for evaluating a run: collaborators that give fixed replies (the prompt
  is the question itself, \<open>eval\<close> yields the one row \<open>[(1,)]\<close>, the clock counts its
  readings, whose differences are whole numbers and need no rounding), and a world with an enabled, empty cache, no cache file and empty logs.
\<close>

definition demo_env :: "exn + string \<Rightarrow> exn + string \<Rightarrow> exn + string \<Rightarrow> env" where
  "demo_env sql_reply db_reply nlp_reply =
     \<lparr>clock = real, elapsed = (\<lambda>t1 t0. t1 - t0), now_isoformat = ''2025-01-01T00:00:00'',
      SQL_MODEL = ''sql-model'', NLP_MODEL = ''nlp-model'',
      get_table_info = Inr ''orders(id)'',
      get_sql_prompt = (\<lambda>schema q. q),
      sql_llm = (\<lambda>p. sql_reply),
      db_run = (\<lambda>sql. db_reply),
      py_eval = (\<lambda>text. Inr (PList [PTuple [PInt 1]])),
      get_nlp_prompt = (\<lambda>q sql res. q),
      nlp_llm = (\<lambda>p. nlp_reply)\<rparr>"

text \<open>A writable file system in which every path is in the given state.\<close>

definition disk_with :: "file_state \<Rightarrow> filesystem" where
  "disk_with st = \<lparr>files = (\<lambda>p. st), writable = (\<lambda>p. True)\<rparr>"

definition fresh_world :: world where
  "fresh_world =
     \<lparr>cache = \<lparr>file_path = CACHE_FILE, enabled = True, cache_obj = PDict []\<rparr>,
      disk = disk_with Missing,
      app_logger = \<lparr>log_file = [], console = []\<rparr>,
      ticks = 0, calls = []\<rparr>"

text \<open>
  Settings of the test doubles: every stage succeeds; the database rejects the query;
  the SQL backend replies with a bare fence marker and the database accepts the empty
  statement; the same with a database that rejects it; every stage succeeds on a
  database that rejects the empty statement, as MySQL does; the user interrupts the
  program while the database works; and nothing is reachable.
\<close>

abbreviation env_ok :: env where
  "env_ok \<equiv> demo_env (Inr ''SELECT 1'') (Inr ''[(1,)]'') (Inr ''one'')"

abbreviation env_exec_fails :: env where
  "env_exec_fails \<equiv>
     demo_env (Inr ''SELECT 1'') (Inl (Raised ''no such table'')) (Inr ''one'')"

abbreviation env_empty_sql :: env where
  "env_empty_sql \<equiv> demo_env (Inr ''```'') (Inr ''[(1,)]'') (Inr ''one'')"

abbreviation env_empty_sql_fails :: env where
  "env_empty_sql_fails \<equiv>
     demo_env (Inr ''```'') (Inl (Raised ''Query was empty'')) (Inr ''one'')"

abbreviation env_interrupted :: env where
  "env_interrupted \<equiv> demo_env (Inr ''SELECT 1'') (Inl KeyboardInterrupt) (Inr ''one'')"

abbreviation env_mysql :: env where
  "env_mysql \<equiv> demo_env (Inr ''SELECT 1'') (Inr ''[(1,)]'') (Inr ''one'')
     \<lparr>db_run := (\<lambda>sql. if sql = Some [] then Inl (Raised ''Query was empty'')
                         else Inr ''[(1,)]'')\<rparr>"

abbreviation env_down :: env where
  "env_down \<equiv>
     demo_env (Inl (Raised ''backend down'')) (Inl (Raised ''database down''))
       (Inl (Raised ''backend down''))"

section \<open>Fence stripping\<close>

lemma fence_Cons: "fence (c # cs) \<longleftrightarrow> c = CHR ''`'' \<and> take 2 cs = ''``''"
  by (auto simp: fence_def take_Suc_conv_app_nth numeral_3_eq_3 numeral_2_eq_2 split: list.splits)

lemma fence_sql_fence: "fence_sql s \<Longrightarrow> fence s"
  by (simp add: fence_sql_def)

lemma has_fence_iff: "has_fence s \<longleftrightarrow> (\<exists>u v. s = u @ ''```'' @ v)"
proof (induction s)
  case Nil
  then show ?case by simp
next
  case (Cons c cs)
  have f: "fence (c # cs) \<longleftrightarrow> (\<exists>v. c # cs = ''```'' @ v)"
    unfolding fence_def
    by (metis append_eq_conv_conj append_take_drop_id length_Cons list.size(3) numeral_3_eq_3)
  show ?case
  proof
    assume "has_fence (c # cs)"
    then consider "fence (c # cs)" | "has_fence cs" by auto
    then show "\<exists>u v. c # cs = u @ ''```'' @ v"
    proof cases
      case 1
      then obtain v where "c # cs = ''```'' @ v" using f by blast
      then have "c # cs = [] @ ''```'' @ v" by simp
      then show ?thesis by blast
    next
      case 2
      then obtain u v where "cs = u @ ''```'' @ v" using Cons.IH by blast
      then have "c # cs = (c # u) @ ''```'' @ v" by simp
      then show ?thesis by blast
    qed
  next
    assume "\<exists>u v. c # cs = u @ ''```'' @ v"
    then obtain u v where uv: "c # cs = u @ ''```'' @ v" by blast
    show "has_fence (c # cs)"
    proof (cases u)
      case Nil
      then show ?thesis using uv f by auto
    next
      case (Cons a u')
      then have "cs = u' @ ''```'' @ v" using uv by simp
      then show ?thesis using Cons.IH by auto
    qed
  qed
qed

lemma sub_fences_id: "\<not> has_fence s \<Longrightarrow> sub_fences s = s"
  by (induction s) (auto dest: fence_sql_fence)

text \<open>What the substitution puts out starts with a backquote only if its input does.\<close>

lemma sub_fences_backquote:
  "sub_fences s = CHR ''`'' # r \<Longrightarrow> \<exists>t. s = CHR ''`'' # t"
  by (cases s) (auto simp: fence_Cons dest!: fence_sql_fence split: if_splits)

lemma has_fence_drop: "has_fence (drop n s) \<Longrightarrow> has_fence s"
  by (induction s arbitrary: n) (auto simp: drop_Cons split: nat.splits)

lemma sub_fences_no_fence: "\<not> has_fence (sub_fences s)"
proof (induction s rule: sub_fences.induct)
  case 1
  then show ?case by simp
next
  case (2 c cs)
  show ?case
  proof (cases "fence (c # cs)")
    case True
    then show ?thesis using 2 by auto
  next
    case False
    then have nf: "\<not> fence_sql (c # cs)" using fence_sql_fence by blast
    have eq: "sub_fences (c # cs) = c # sub_fences cs" using False nf by simp
    have "\<not> fence (c # sub_fences cs)"
    proof
      assume a: "fence (c # sub_fences cs)"
      then have c: "c = CHR ''`''" and t: "take 2 (sub_fences cs) = ''``''"
        by (simp_all add: fence_Cons)
      from t obtain r where r: "sub_fences cs = CHR ''`'' # CHR ''`'' # r"
        by (cases "sub_fences cs"; cases "tl (sub_fences cs)") (auto simp: numeral_2_eq_2)
      then obtain cs1 where cs1: "cs = CHR ''`'' # cs1" using sub_fences_backquote by blast
      have nf2: "\<not> fence cs"
      proof
        assume "fence cs"
        then have "take 2 cs1 = ''``''" using cs1 by (simp add: fence_Cons)
        then have "take 2 cs = ''``''" using cs1 by (cases cs1) (auto simp: numeral_2_eq_2)
        then show False using False c by (simp add: fence_Cons)
      qed
      then have "sub_fences cs = CHR ''`'' # sub_fences cs1"
        using cs1 fence_sql_fence by auto
      then have "sub_fences cs1 = CHR ''`'' # r" using r by simp
      then obtain cs2 where "cs1 = CHR ''`'' # cs2" using sub_fences_backquote by blast
      then have "take 2 cs = ''``''" using cs1 by (simp add: numeral_2_eq_2)
      then show False using False c by (simp add: fence_Cons)
    qed
    then show ?thesis using eq 2 False nf by simp
  qed
qed

lemma no_fence_dropWhile: "\<not> has_fence s \<Longrightarrow> \<not> has_fence (dropWhile P s)"
  by (metis dropWhile_eq_drop has_fence_drop)

lemma has_fence_rev: "has_fence (rev s) = has_fence s"
proof -
  have "(\<exists>u v. rev s = u @ ''```'' @ v) \<longleftrightarrow> (\<exists>u v. s = u @ ''```'' @ v)" (is "?L = ?R")
  proof
    assume ?L
    then obtain u v where "rev s = u @ ''```'' @ v" by blast
    then have "s = rev (u @ ''```'' @ v)" by (metis rev_rev_ident)
    then have "s = rev v @ ''```'' @ rev u" by simp
    then show ?R by blast
  next
    assume ?R
    then obtain u v where "s = u @ ''```'' @ v" by blast
    then have "rev s = rev v @ ''```'' @ rev u" by simp
    then show ?L by blast
  qed
  then show ?thesis by (simp only: has_fence_iff)
qed

lemma clean_sql_no_fence: "\<not> has_fence (clean_sql s)"
  unfolding clean_sql_def strip_def
  by (simp add: has_fence_rev no_fence_dropWhile sub_fences_no_fence)

lemma clean_sql_plain: "clean_sql ''SELECT 1'' = ''SELECT 1''"
  by code_simp

lemma clean_sql_fenced_sql:
  "clean_sql (''```sql'' @ [CHR 0x0A] @ ''SELECT 1'' @ [CHR 0x0A] @ ''```'') = ''SELECT 1''"
  by code_simp

lemma clean_sql_fenced:
  "clean_sql (''```'' @ [CHR 0x0A] @ ''SELECT 1'' @ [CHR 0x0A] @ ''```'') = ''SELECT 1''"
  by code_simp

lemma clean_sql_fenced_SQL:
  "clean_sql (''```SQL'' @ [CHR 0x0A] @ ''SELECT 1'' @ [CHR 0x0A] @ ''```'') = ''SELECT 1''"
  by code_simp

text \<open>
  C7. \<open>_clean_sql\<close> maps each of the four texts \<open>SELECT 1\<close>, the same between a fence
  tagged \<open>sql\<close>, between an untagged fence and between a fence tagged \<open>SQL\<close> (with the
  line breaks inside the fence) to exactly \<open>SELECT 1\<close>. For every input, the cleaned text
  holds no fence marker, and an input without a fence marker is only trimmed.
\<close>

theorem clean_sql_strips_fences:
  "clean_sql ''SELECT 1'' = ''SELECT 1''
   \<and> clean_sql (''```sql'' @ [CHR 0x0A] @ ''SELECT 1'' @ [CHR 0x0A] @ ''```'') = ''SELECT 1''
   \<and> clean_sql (''```'' @ [CHR 0x0A] @ ''SELECT 1'' @ [CHR 0x0A] @ ''```'') = ''SELECT 1''
   \<and> clean_sql (''```SQL'' @ [CHR 0x0A] @ ''SELECT 1'' @ [CHR 0x0A] @ ''```'') = ''SELECT 1''
   \<and> \<not> has_fence (clean_sql query)
   \<and> (\<not> has_fence query \<longrightarrow> clean_sql query = strip query)"
  using clean_sql_plain clean_sql_fenced_sql clean_sql_fenced clean_sql_fenced_SQL
    clean_sql_no_fence [of query] sub_fences_id [of query]
  by (simp only: clean_sql_def) simp

theorem clean_sql_strips_fences_witness:
  "\<not> has_fence ''  SELECT 1 '' \<and> clean_sql ''  SELECT 1 '' = ''SELECT 1''"
proof -
  have h: "\<not> has_fence ''  SELECT 1 ''" by code_simp
  have s: "strip ''  SELECT 1 '' = ''SELECT 1''" by code_simp
  from clean_sql_strips_fences [of "''  SELECT 1 ''"] h
  have "clean_sql ''  SELECT 1 '' = strip ''  SELECT 1 ''" by blast
  then show ?thesis using h s by simp
qed

section \<open>Result canonicalization\<close>

lemma sanitize_falsy: "\<not> truthy v \<Longrightarrow> sanitize_result v = ''[]''"
  by (simp add: sanitize_result_def)

lemma sanitize_first_row: "sanitize_result (PList (PTuple [x] # rows)) = py_str x"
  by (simp add: sanitize_result_def)

lemma sanitize_other:
  assumes "truthy v" and "\<nexists>x rows. v = PList (PTuple [x] # rows)"
  shows "sanitize_result v = py_str v"
  using assms
  by (auto simp: sanitize_result_def split: pyval.splits list.splits)

lemma sanitize_42: "sanitize_result (PList [PTuple [PInt 42]]) = ''42''"
  by code_simp

text \<open>
  C6, as the code has it. A falsy raw result (an empty row sequence, \<open>None\<close>, an empty
  text, zero) canonicalizes to \<open>[]\<close>. A non-empty list whose first row is a 1-tuple
  canonicalizes to the string form of that first row's single value, whatever the rows
  behind it are: \<open>[(42,)]\<close> gives \<open>42\<close>, and a multi-row single-column result gives
  its first value only. Every other truthy value, in particular a list whose first row
  has several columns, canonicalizes to the string form of the whole value.
\<close>

theorem sanitize_result_cases:
  "(\<not> truthy v \<longrightarrow> sanitize_result v = ''[]'')
   \<and> sanitize_result (PList []) = ''[]''
   \<and> sanitize_result (PList (PTuple [x] # rows)) = py_str x
   \<and> sanitize_result (PList [PTuple [PInt 42]]) = ''42''
   \<and> (truthy v \<and> (\<nexists>x rows. v = PList (PTuple [x] # rows)) \<longrightarrow> sanitize_result v = py_str v)"
  using sanitize_falsy [of v] sanitize_falsy [of "PList []"] sanitize_first_row [of x rows]
    sanitize_42 sanitize_other [of v]
  by simp

theorem sanitize_result_cases_witness:
  "\<not> truthy (PInt 0) \<and> sanitize_result (PInt 0) = ''[]''
   \<and> truthy (PList [PTuple [PInt 1, PStr ''a'']])
   \<and> (\<nexists>x rows. PList [PTuple [PInt 1, PStr ''a'']] = PList (PTuple [x] # rows))
   \<and> sanitize_result (PList [PTuple [PInt 1, PStr ''a'']])
       = ''[(1, '' @ [CHR 0x27] @ ''a'' @ [CHR 0x27] @ '')]''"
proof -
  have s: "py_str (PList [PTuple [PInt 1, PStr ''a'']])
             = ''[(1, '' @ [CHR 0x27] @ ''a'' @ [CHR 0x27] @ '')]''"
    by code_simp
  show ?thesis
    using sanitize_result_cases [of "PInt 0"]
      sanitize_result_cases [of "PList [PTuple [PInt 1, PStr ''a'']]"] s
    by simp
qed

text \<open>
  The claim as stated fails on a multi-row single-column result: \<open>[(1,), (2,)]\<close> is
  canonicalized to \<open>1\<close>, not to the string form of the full row sequence.
\<close>

theorem sanitize_result_multirow_counterexample:
  "sanitize_result (PList [PTuple [PInt 1], PTuple [PInt 2]]) = ''1''
   \<and> py_str (PList [PTuple [PInt 1], PTuple [PInt 2]]) = ''[(1,), (2,)]''
   \<and> sanitize_result (PList [PTuple [PInt 1], PTuple [PInt 2]])
       \<noteq> py_str (PList [PTuple [PInt 1], PTuple [PInt 2]])"
  by code_simp

section \<open>The cache store\<close>

text \<open>
  C8, as the code has it. When the backing file is missing, cannot be opened or read
  (\<open>IOError\<close>), or holds text that is not JSON (\<open>JSONDecodeError\<close>), constructing the
  \<open>CacheManager\<close> succeeds with an empty map, and every \<open>get\<close> on it misses.
\<close>

theorem cache_init_tolerates:
  assumes "files d path \<in> {Missing, Unreadable, NotJson}"
  shows "CacheManager_init path en d
           = Inr \<lparr>file_path = path, enabled = en, cache_obj = PDict []\<rparr>
     \<and> CacheManager_get \<lparr>file_path = path, enabled = en, cache_obj = PDict []\<rparr> q = Inr PNone"
  using assms
  by (auto simp: CacheManager_init_def load_cache_def CacheManager_get_def path_exists_def)

theorem cache_init_tolerates_witness:
  "files (disk_with NotJson) ''query_cache.json'' \<in> {Missing, Unreadable, NotJson}
   \<and> CacheManager_init ''query_cache.json'' True (disk_with NotJson)
       = Inr \<lparr>file_path = ''query_cache.json'', enabled = True, cache_obj = PDict []\<rparr>
   \<and> CacheManager_get \<lparr>file_path = ''query_cache.json'', enabled = True, cache_obj = PDict []\<rparr>
        ''q'' = Inr PNone"
proof -
  have h: "files (disk_with NotJson) ''query_cache.json'' \<in> {Missing, Unreadable, NotJson}"
    by (simp add: disk_with_def)
  from cache_init_tolerates [OF h, of True "''q''"] h show ?thesis by blast
qed

text \<open>
  The claim as stated fails on a file that holds JSON which is not an object: the text
  \<open>[]\<close> is loaded as a list, construction succeeds, and \<open>get\<close> raises
  \<open>AttributeError\<close> instead of missing. (A file whose bytes are not UTF-8 makes the
  construction itself raise.)
\<close>

theorem cache_init_non_dict_counterexample:
  "CacheManager_init ''query_cache.json'' True (disk_with (Json (PList [])))
     = Inr \<lparr>file_path = ''query_cache.json'', enabled = True, cache_obj = PList []\<rparr>
   \<and> CacheManager_get \<lparr>file_path = ''query_cache.json'', enabled = True, cache_obj = PList []\<rparr>
        ''q''
       = Inl (AttributeError (quoted ''list'' @ '' object has no attribute '' @ quoted ''get''))
   \<and> CacheManager_get \<lparr>file_path = ''query_cache.json'', enabled = True, cache_obj = PList []\<rparr>
        ''q'' \<noteq> Inr PNone
   \<and> CacheManager_init ''query_cache.json'' True (disk_with (NotUtf8 ''invalid start byte''))
     = Inl (UnicodeDecodeError ''invalid start byte'')"
  by (simp add: CacheManager_init_def load_cache_def CacheManager_get_def disk_with_def
      path_exists_def)

text \<open>
  C9. A \<open>CacheManager\<close> constructed with \<open>enabled = False\<close> is built without reading
  the file; on a disabled manager, whatever it holds, \<open>get\<close> returns \<open>None\<close> for every
  question, and \<open>set\<close> and \<open>_save_cache\<close> leave the in-memory map and the file system
  as they are, for every question and entry.
\<close>

theorem disabled_cache_noop:
  "CacheManager_init path False d0 = Inr \<lparr>file_path = path, enabled = False, cache_obj = PDict []\<rparr>
   \<and> CacheManager_get \<lparr>file_path = path, enabled = False, cache_obj = obj\<rparr> q = Inr PNone
   \<and> CacheManager_set q entry (\<lparr>file_path = path, enabled = False, cache_obj = obj\<rparr>, d)
       = (None, \<lparr>file_path = path, enabled = False, cache_obj = obj\<rparr>, d)
   \<and> save_cache \<lparr>file_path = path, enabled = False, cache_obj = obj\<rparr> d = Inr d"
  by (simp add: CacheManager_init_def load_cache_def CacheManager_get_def CacheManager_set_def
      save_cache_def)

section \<open>The stages of a run\<close>

lemma records_append [simp]: "records (a @ b) = records a @ records b"
  by (induction a rule: records.induct) auto

lemma run_miss:
  assumes "CacheManager_get (cache w0) q = Inr cached" "\<not> truthy cached"
  shows "run e q w0 = run_uncached e q (clock e (ticks w0)) (at_try e q w0)"
  using assms by (simp add: run_def at_try_def time_time_def info_def Let_def)

lemmas world_ops = time_time_def called_def info_def log_info_def log_error_def log_struct_def

lemma generate_sql_frame:
  assumes "generate_sql e q (le, w) = (r, le', w')"
  shows "cache w' = cache w \<and> disk w' = disk w
     \<and> records (log_file (app_logger w')) = records (log_file (app_logger w))
     \<and> records (console (app_logger w')) = records (console (app_logger w))
     \<and> success le' = success le \<and> error le' = error le \<and> final_answer le' = final_answer le"
  using assms
  by (auto simp: generate_sql_def world_ops Let_def split: sum.splits prod.splits)

lemma generate_sql_raises:
  assumes "generate_sql e q (le, w) = (Some x, le', w')"
  shows "sql_query le' = sql_query le"
  using assms
  by (auto simp: generate_sql_def world_ops Let_def split: sum.splits prod.splits)

lemma generate_sql_completes:
  assumes "generate_sql e q (le, w) = (None, le', w')"
  shows "\<exists>schema raw. get_table_info e = Inr schema
           \<and> sql_llm e (get_sql_prompt e schema q) = Inr raw
           \<and> sql_query le' = Some (clean_sql raw)"
  using assms
  by (auto simp: generate_sql_def world_ops Let_def split: sum.splits prod.splits)

lemma execute_sql_frame:
  assumes "execute_sql e (le, w) = (r, le', w')"
  shows "cache w' = cache w \<and> disk w' = disk w
     \<and> records (log_file (app_logger w')) = records (log_file (app_logger w))
     \<and> records (console (app_logger w')) = records (console (app_logger w))
     \<and> success le' = success le \<and> error le' = error le \<and> final_answer le' = final_answer le
     \<and> sql_query le' = sql_query le"
  using assms
  by (auto simp: execute_sql_def inner_handler_def world_ops Let_def
      split: sum.splits prod.splits if_splits)

lemma generate_answer_frame:
  assumes "generate_answer e q (le, w) = (r, le', w')"
  shows "cache w' = cache w \<and> disk w' = disk w
     \<and> records (log_file (app_logger w')) = records (log_file (app_logger w))
     \<and> records (console (app_logger w')) = records (console (app_logger w))
     \<and> error le' = error le \<and> sql_query le' = sql_query le"
  using assms
  by (auto simp: generate_answer_def world_ops Let_def split: sum.splits prod.splits)

lemma generate_answer_raises:
  assumes "generate_answer e q (le, w) = (Some x, le', w')"
  shows "success le' = success le \<and> final_answer le' = final_answer le"
  using assms
  by (auto simp: generate_answer_def world_ops Let_def split: sum.splits prod.splits)

lemma generate_answer_completes:
  assumes "generate_answer e q (le, w) = (None, le', w')"
  shows "success le' \<and> (\<exists>a. final_answer le' = Some a)"
  using assms
  by (auto simp: generate_answer_def world_ops Let_def split: sum.splits prod.splits)


lemma stages_cases:
  assumes "stages e q s = (r, le', w')"
  obtains (gen) x where "generate_sql e q s = (Some x, le', w')" "r = Some x"
  | (exec) x le1 w1 where "generate_sql e q s = (None, le1, w1)"
      "execute_sql e (le1, w1) = (Some x, le', w')" "r = Some x"
  | (ans) le1 w1 le2 w2 where "generate_sql e q s = (None, le1, w1)"
      "execute_sql e (le1, w1) = (None, le2, w2)"
      "generate_answer e q (le2, w2) = (r, le', w')"
  using assms
  by (auto simp: stages_def seq_def split: prod.splits option.splits)

lemma stages_frame:
  assumes "stages e q (le, w) = (r, le', w')"
  shows "cache w' = cache w \<and> disk w' = disk w
     \<and> records (log_file (app_logger w')) = records (log_file (app_logger w))
     \<and> records (console (app_logger w')) = records (console (app_logger w))
     \<and> error le' = error le"
  using assms
proof (cases rule: stages_cases)
  case (gen x)
  then show ?thesis using generate_sql_frame by blast
next
  case (exec x le1 w1)
  then show ?thesis
    using generate_sql_frame [of e q le w None le1 w1] execute_sql_frame [of e le1 w1 "Some x" le' w']
    by simp
next
  case (ans le1 w1 le2 w2)
  then show ?thesis
    using generate_sql_frame [of e q le w None le1 w1] execute_sql_frame [of e le1 w1 None le2 w2]
      generate_answer_frame [of e q le2 w2 r le' w']
    by simp
qed

lemma stages_raised:
  assumes "stages e q (le, w) = (Some x, le', w')"
  shows "success le' = success le \<and> final_answer le' = final_answer le"
  using assms
proof (cases rule: stages_cases)
  case (gen x)
  then show ?thesis using generate_sql_frame by blast
next
  case (exec x le1 w1)
  then show ?thesis
    using generate_sql_frame [of e q le w None le1 w1] execute_sql_frame [of e le1 w1 "Some x" le' w']
    by simp
next
  case (ans le1 w1 le2 w2)
  then show ?thesis
    using generate_sql_frame [of e q le w None le1 w1] execute_sql_frame [of e le1 w1 None le2 w2]
      generate_answer_raises [of e q le2 w2 x le' w']
    by simp
qed

lemma stages_completed:
  assumes "stages e q (le, w) = (None, le', w')"
  shows "success le' \<and> (\<exists>a. final_answer le' = Some a) \<and> (\<exists>sql. sql_query le' = Some sql)"
  using assms
proof (cases rule: stages_cases)
  case (ans le1 w1 le2 w2)
  then show ?thesis
    using generate_sql_completes [of e q le w le1 w1] execute_sql_frame [of e le1 w1 None le2 w2]
      generate_answer_frame [of e q le2 w2 None le' w']
      generate_answer_completes [of e q le2 w2 le' w']
    by auto
qed simp_all

text \<open>The generated SQL text that the log entry holds when the stages are over.\<close>

lemma stages_sql_query:
  assumes "stages e q (le, w) = (r, le', w')"
  shows "case generate_sql e q (le, w) of
           (Some y, s) \<Rightarrow> sql_query le' = sql_query le
         | (None, le1, w1) \<Rightarrow> sql_query le' = sql_query le1"
  using assms
proof (cases rule: stages_cases)
  case (gen x)
  then show ?thesis using generate_sql_raises by auto
next
  case (exec x le1 w1)
  then show ?thesis using execute_sql_frame [of e le1 w1 "Some x" le' w'] by simp
next
  case (ans le1 w1 le2 w2)
  then show ?thesis
    using execute_sql_frame [of e le1 w1 None le2 w2] generate_answer_frame [of e q le2 w2 r le' w']
    by simp
qed

lemma execute_sql_completes:
  assumes "execute_sql e (le, w) = (None, le', w')"
  shows "\<exists>raw v. db_run e (sql_query le) = Inr raw \<and> py_eval e raw = Inr v"
  using assms
  by (auto simp: execute_sql_def world_ops Let_def split: sum.splits prod.splits)

lemma get_dict:
  assumes "CacheManager_get c q = Inr v" "enabled c"
  shows "\<exists>kvs. cache_obj c = PDict kvs"
  using assms by (cases "cache_obj c") (auto simp: CacheManager_get_def)

lemma save_to_cache_enabled:
  assumes "enabled (cache w)" "cache_obj (cache w) = PDict kvs"
    and "CHR 0x00 \<notin> set (file_path (cache w))"
  shows "\<exists>w2. save_to_cache q (le, w) = (None, le, w2) \<and> enabled (cache w2)
     \<and> cache_obj (cache w2) = PDict (AList.update (lower (strip q))
                 (PDict [(''answer'', opt_str (final_answer le)),
                         (''sql_query'', opt_str (sql_query le))]) kvs)"
  using assms
  by (cases "writable (disk w) (file_path (cache w))")
    (simp_all add: save_to_cache_def CacheManager_set_def save_cache_def Let_def)

lemma save_to_cache_disabled:
  assumes "\<not> enabled (cache w)"
  shows "save_to_cache q (le, w) = (None, le, w)"
  using assms by (simp add: save_to_cache_def CacheManager_set_def)

text \<open>
  Behind a cache miss the write to the cache raises nothing but the \<open>ValueError\<close> of a
  cache path with a NUL character.
\<close>

lemma save_to_cache_frame:
  assumes "enabled (cache w) \<longrightarrow> (\<exists>kvs. cache_obj (cache w) = PDict kvs)"
  shows "\<exists>rz w2. save_to_cache q (le, w) = (rz, le, w2)
           \<and> ticks w2 = ticks w \<and> app_logger w2 = app_logger w \<and> calls w2 = calls w
           \<and> \<not> uncaught rz
           \<and> (CHR 0x00 \<notin> set (file_path (cache w)) \<longrightarrow> rz = None)"
proof (cases "enabled (cache w)")
  case True
  then obtain kvs where "cache_obj (cache w) = PDict kvs" using assms by blast
  then show ?thesis using True
    by (simp add: save_to_cache_def CacheManager_set_def save_cache_def Let_def uncaught_def)
next
  case False
  from save_to_cache_disabled [OF this, of q le] show ?thesis by (simp add: uncaught_def)
qed

lemma at_try_world:
  "cache (snd (at_try e q w0)) = cache w0 \<and> disk (snd (at_try e q w0)) = disk w0
   \<and> calls (snd (at_try e q w0)) = calls w0
   \<and> records (log_file (app_logger (snd (at_try e q w0)))) = records (log_file (app_logger w0))
   \<and> records (console (app_logger (snd (at_try e q w0)))) = records (console (app_logger w0))"
  by (simp add: at_try_def world_ops)

lemma at_try_log:
  "fst (at_try e q w0) = new_log_entry e q"
  by (simp add: at_try_def)

lemma try_body_raised:
  assumes "stages e q s = (Some x, le, w)"
  shows "try_body e q s = (Some x, le, w)"
  using assms by (simp add: try_body_def seq_def)

section \<open>A run on a cache miss\<close>

lemma try_body_completed:
  assumes "CacheManager_get (cache w0) q' = Inr cached"
    and "stages e q (at_try e q w0) = (None, le, w)"
  shows "\<exists>rz w2. try_body e q (at_try e q w0) = (rz, le, w2)
           \<and> ticks w2 = ticks w \<and> app_logger w2 = app_logger w \<and> calls w2 = calls w
           \<and> \<not> uncaught rz
           \<and> (CHR 0x00 \<notin> set (file_path (cache w0)) \<longrightarrow> rz = None)"
proof -
  have c: "cache w = cache w0"
    using stages_frame [of e q "fst (at_try e q w0)" "snd (at_try e q w0)" None le w] assms(2)
      at_try_world [of e q w0]
    by simp
  then have "enabled (cache w) \<longrightarrow> (\<exists>kvs. cache_obj (cache w) = PDict kvs)"
    using get_dict [OF assms(1)] by simp
  from save_to_cache_frame [OF this, of q le] show ?thesis
    using assms(2) c by (simp add: try_body_def seq_def)
qed

lemma run_uncached_raised:
  assumes "try_body e q s0 = (Some x, le, w)" and "is_Exception x"
  shows "run_uncached e q st s0 =
     (Inr \<lparr>question = q, answer = ''Error: '' @ str_exn x,
           QueryResponse.sql_query = or_Failed (sql_query le),
           execution_time = elapsed e (clock e (ticks w)) st, from_cache = False\<rparr>,
      w\<lparr>ticks := Suc (ticks w),
        app_logger := log_struct
          (le\<lparr>error := Some (str_exn x), final_answer := Some (''Error: '' @ str_exn x),
              total_duration := elapsed e (clock e (ticks w)) st\<rparr>)
          (log_error (PipelineError (str_exn x)) (app_logger w))\<rparr>)"
  using assms
  by (simp add: run_uncached_def except_clause_def finally_clause_def time_time_def
      response_def QueryResponse_init_def opt_str_def Let_def)

lemma run_uncached_passed:
  assumes "try_body e q s0 = (Some x, le, w)" and "\<not> is_Exception x"
  shows "run_uncached e q st s0 =
     (Inl x,
      w\<lparr>ticks := Suc (ticks w),
        app_logger := log_struct (le\<lparr>total_duration := elapsed e (clock e (ticks w)) st\<rparr>)
          (app_logger w)\<rparr>)"
  using assms
  by (simp add: run_uncached_def finally_clause_def time_time_def Let_def)

lemma run_uncached_completed:
  assumes "try_body e q s0 = (None, le, w)" "final_answer le = Some a"
  shows "run_uncached e q st s0 =
     (Inr \<lparr>question = q, answer = a,
           QueryResponse.sql_query = or_Failed (sql_query le),
           execution_time = elapsed e (clock e (ticks w)) st, from_cache = False\<rparr>,
      w\<lparr>ticks := Suc (ticks w),
        app_logger := log_struct (le\<lparr>total_duration := elapsed e (clock e (ticks w)) st\<rparr>)
          (app_logger w)\<rparr>)"
  using assms
  by (simp add: run_uncached_def finally_clause_def time_time_def
      response_def QueryResponse_init_def opt_str_def Let_def)

lemmas run_defs = run_def run_uncached_def response_def try_body_def stages_def seq_def
  generate_sql_def execute_sql_def inner_handler_def generate_answer_def save_to_cache_def
  except_clause_def finally_clause_def new_log_entry_def at_try_def time_time_def called_def
  info_def log_info_def log_error_def log_struct_def CacheManager_get_def CacheManager_set_def
  save_cache_def QueryResponse_init_def opt_str_def or_Failed_def demo_env_def fresh_world_def
  disk_with_def CACHE_FILE_def Let_def

lemma eval_clean_select: "clean_sql ''SELECT 1'' = ''SELECT 1''" by code_simp
lemma eval_clean_fence: "clean_sql ''```'' = []" by code_simp
lemma eval_key_q: "lower (strip ''q'') = ''q''" by code_simp
lemma eval_strip_one: "strip ''one'' = ''one''" by code_simp
lemma eval_sanitize_1: "sanitize_result (PList [PTuple [PInt 1]]) = ''1''" by code_simp
lemma CACHE_FILE_no_nul: "CHR 0x00 \<notin> set CACHE_FILE" by (simp add: CACHE_FILE_def)

lemmas eval_facts = eval_clean_select eval_clean_fence eval_key_q eval_strip_one eval_sanitize_1

text \<open>
  The four ways a run goes on behind a cache miss: a stage raises an \<open>Exception\<close>; a
  stage raises an exception that passes \<open>except Exception\<close> by; the stages complete
  and so does the write to the cache; the stages complete and the write to the cache
  raises.
\<close>

lemma run_miss_cases:
  assumes "CacheManager_get (cache w0) q = Inr cached" "\<not> truthy cached"
  obtains (raised) x le w where
      "stages e q (at_try e q w0) = (Some x, le, w)" "is_Exception x"
      "run e q w0 =
         (Inr \<lparr>question = q, answer = ''Error: '' @ str_exn x,
               QueryResponse.sql_query = or_Failed (sql_query le),
               execution_time = elapsed e (clock e (ticks w)) (clock e (ticks w0)),
               from_cache = False\<rparr>,
          w\<lparr>ticks := Suc (ticks w),
            app_logger := log_struct
              (le\<lparr>error := Some (str_exn x), final_answer := Some (''Error: '' @ str_exn x),
                  total_duration := elapsed e (clock e (ticks w)) (clock e (ticks w0))\<rparr>)
              (log_error (PipelineError (str_exn x)) (app_logger w))\<rparr>)"
  | (passed) x le w where
      "stages e q (at_try e q w0) = (Some x, le, w)" "\<not> is_Exception x"
      "run e q w0 =
         (Inl x,
          w\<lparr>ticks := Suc (ticks w),
            app_logger := log_struct
              (le\<lparr>total_duration := elapsed e (clock e (ticks w)) (clock e (ticks w0))\<rparr>)
              (app_logger w)\<rparr>)"
  | (completed) le w w2 a where
      "stages e q (at_try e q w0) = (None, le, w)"
      "try_body e q (at_try e q w0) = (None, le, w2)"
      "ticks w2 = ticks w" "app_logger w2 = app_logger w" "calls w2 = calls w"
      "final_answer le = Some a" "success le"
      "run e q w0 =
         (Inr \<lparr>question = q, answer = a,
               QueryResponse.sql_query = or_Failed (sql_query le),
               execution_time = elapsed e (clock e (ticks w)) (clock e (ticks w0)),
               from_cache = False\<rparr>,
          w2\<lparr>ticks := Suc (ticks w),
            app_logger := log_struct
              (le\<lparr>total_duration := elapsed e (clock e (ticks w)) (clock e (ticks w0))\<rparr>)
              (app_logger w)\<rparr>)"
  | (unsaved) x le w w2 where
      "stages e q (at_try e q w0) = (None, le, w)"
      "try_body e q (at_try e q w0) = (Some x, le, w2)" "is_Exception x"
      "CHR 0x00 \<in> set (file_path (cache w0))"
      "ticks w2 = ticks w" "app_logger w2 = app_logger w" "calls w2 = calls w"
      "success le"
      "run e q w0 =
         (Inr \<lparr>question = q, answer = ''Error: '' @ str_exn x,
               QueryResponse.sql_query = or_Failed (sql_query le),
               execution_time = elapsed e (clock e (ticks w)) (clock e (ticks w0)),
               from_cache = False\<rparr>,
          w2\<lparr>ticks := Suc (ticks w),
            app_logger := log_struct
              (le\<lparr>error := Some (str_exn x), final_answer := Some (''Error: '' @ str_exn x),
                  total_duration := elapsed e (clock e (ticks w)) (clock e (ticks w0))\<rparr>)
              (log_error (PipelineError (str_exn x)) (app_logger w))\<rparr>)"
proof -
  obtain rz le w where st: "stages e q (at_try e q w0) = (rz, le, w)"
    by (metis prod_cases3)
  show thesis
  proof (cases rz)
    case (Some x)
    then have tb: "try_body e q (at_try e q w0) = (Some x, le, w)"
      using st try_body_raised by simp
    show thesis
    proof (cases "is_Exception x")
      case True
      from run_uncached_raised [OF tb True, of "clock e (ticks w0)"] show thesis
        using raised [of x le w] st Some True run_miss [OF assms, of e] by simp
    next
      case False
      from run_uncached_passed [OF tb False, of "clock e (ticks w0)"] show thesis
        using passed [of x le w] st Some False run_miss [OF assms, of e] by simp
    qed
  next
    case None
    then have st': "stages e q (at_try e q w0) = (None, le, w)" using st by simp
    from try_body_completed [OF assms(1) st'] obtain rz' w2 where
      tb: "try_body e q (at_try e q w0) = (rz', le, w2)"
      and w2: "ticks w2 = ticks w" "app_logger w2 = app_logger w" "calls w2 = calls w"
      and rz': "\<not> uncaught rz'" "CHR 0x00 \<notin> set (file_path (cache w0)) \<longrightarrow> rz' = None"
      by blast
    have "stages e q (fst (at_try e q w0), snd (at_try e q w0)) = (None, le, w)"
      using st' by simp
    from stages_completed [OF this] obtain a where a: "final_answer le = Some a" "success le"
      by blast
    show thesis
    proof (cases rz')
      case None
      then have tb': "try_body e q (at_try e q w0) = (None, le, w2)" using tb by simp
      from run_uncached_completed [OF tb' a(1), of "clock e (ticks w0)"] show thesis
        using completed [of le w w2 a] st' tb' w2 a run_miss [OF assms, of e] by simp
    next
      case (Some x)
      then have tb': "try_body e q (at_try e q w0) = (Some x, le, w2)" using tb by simp
      have ex: "is_Exception x" using rz'(1) Some by (simp add: uncaught_def)
      have nul: "CHR 0x00 \<in> set (file_path (cache w0))" using rz'(2) Some by auto
      from run_uncached_raised [OF tb' ex, of "clock e (ticks w0)"] show thesis
        using unsaved [of le w x w2] st' tb' w2 a ex nul run_miss [OF assms, of e] by simp
    qed
  qed
qed

lemma fresh_miss: "CacheManager_get (cache fresh_world) q = Inr PNone"
  by (simp add: CacheManager_get_def fresh_world_def)

lemma fresh_path: "file_path (cache fresh_world) = CACHE_FILE"
  by (simp add: fresh_world_def)

lemma eval_spaces: "list_all py_isspace '' ''" by code_simp
lemma eval_lower_x: "lower ''What Is X?'' = lower ''what is x?''" by code_simp

lemma env_ok_completes:
  "fst (stages env_ok q (at_try env_ok q fresh_world)) = None"
  by (simp add: run_defs eval_facts)

lemma env_exec_fails_raises:
  "fst (stages env_exec_fails ''q'' (at_try env_exec_fails ''q'' fresh_world))
     = Some (Raised ''no such table'')"
  by (simp add: run_defs eval_facts)

lemma env_interrupted_raises:
  "fst (stages env_interrupted ''q'' (at_try env_interrupted ''q'' fresh_world))
     = Some KeyboardInterrupt"
  by (simp add: run_defs eval_facts)

lemma stages_at_try_sql_query:
  assumes "stages e q (at_try e q w0) = (rz, le, w)"
    and "generate_sql e q (at_try e q w0) = (None, le1, w1)"
  shows "sql_query le = sql_query le1"
proof -
  have "stages e q (fst (at_try e q w0), snd (at_try e q w0)) = (rz, le, w)"
    using assms(1) by simp
  from stages_sql_query [OF this] show ?thesis using assms(2) by simp
qed

lemma run_not_miss_frame:
  assumes "\<not> (\<exists>v. CacheManager_get (cache w0) q = Inr v \<and> \<not> truthy v)"
  shows "cache (snd (run e q w0)) = cache w0 \<and> disk (snd (run e q w0)) = disk w0
     \<and> calls (snd (run e q w0)) = calls w0
     \<and> records (log_file (app_logger (snd (run e q w0)))) = records (log_file (app_logger w0))"
  using assms
  by (auto simp: run_def world_ops Let_def split: sum.splits)

lemma run_raised_frame:
  assumes "CacheManager_get (cache w0) q = Inr cached" and "\<not> truthy cached"
    and "fst (stages e q (at_try e q w0)) = Some x"
  shows "cache (snd (run e q w0)) = cache w0 \<and> disk (snd (run e q w0)) = disk w0"
  using assms(1,2)
proof (cases rule: run_miss_cases [where e = e])
  case (raised x le w)
  have "stages e q (fst (at_try e q w0), snd (at_try e q w0)) = (Some x, le, w)"
    using raised(1) by simp
  from stages_frame [OF this] at_try_world [of e q w0] raised(3) show ?thesis by simp
next
  case (passed x le w)
  have "stages e q (fst (at_try e q w0), snd (at_try e q w0)) = (Some x, le, w)"
    using passed(1) by simp
  from stages_frame [OF this] at_try_world [of e q w0] passed(3) show ?thesis by simp
next
  case (completed le w w2 a)
  then show ?thesis using assms(3) by simp
next
  case (unsaved x le w w2)
  then show ?thesis using assms(3) by simp
qed

text \<open>
  C1, as the code has it. On a cache miss, when the generation, execution or synthesis
  stage raises an exception that is an \<open>Exception\<close>, \<open>run\<close> does not raise: it
  returns a \<open>QueryResponse\<close> whose answer is \<open>Error: \<close> followed by the description
  of the exception. Its \<open>sql_query\<close> is \<open>Failed\<close> when the generation stage raised,
  and otherwise the cleaned SQL that stage produced, unless that text is empty, in which
  case it is \<open>Failed\<close> as well.
\<close>

theorem run_contains_stage_failure:
  assumes "CacheManager_get (cache w0) q = Inr cached" and "\<not> truthy cached"
    and "fst (stages e q (at_try e q w0)) = Some x" and "is_Exception x"
  shows "\<exists>r w'. run e q w0 = (Inr r, w')
      \<and> question r = q \<and> answer r = ''Error: '' @ str_exn x \<and> \<not> from_cache r
      \<and> (case generate_sql e q (at_try e q w0) of
            (Some y, s) \<Rightarrow> QueryResponse.sql_query r = ''Failed''
          | (None, le1, w1) \<Rightarrow>
              (\<exists>raw. sql_query le1 = Some (clean_sql raw)
                 \<and> QueryResponse.sql_query r =
                     (if clean_sql raw = [] then ''Failed'' else clean_sql raw)))"
  using assms(1,2)
proof (cases rule: run_miss_cases [where e = e])
  case (raised x' le w)
  then have x: "x' = x" using assms(3) by simp
  have st: "stages e q (new_log_entry e q, snd (at_try e q w0)) = (Some x', le, w)"
    using raised(1) by (simp add: at_try_def)
  have g: "generate_sql e q (at_try e q w0)
      = generate_sql e q (new_log_entry e q, snd (at_try e q w0))"
    by (simp add: at_try_def)
  have sq: "case generate_sql e q (at_try e q w0) of
              (Some y, s) \<Rightarrow> sql_query le = None
            | (None, le1, w1) \<Rightarrow> sql_query le = sql_query le1"
    using stages_sql_query [OF st] unfolding g
    by (auto simp: new_log_entry_def split: prod.splits option.splits)
  show ?thesis
  proof (cases "generate_sql e q (at_try e q w0)")
    case (fields rz le1 w1)
    show ?thesis
    proof (cases rz)
      case None
      then have "generate_sql e q (new_log_entry e q, snd (at_try e q w0)) = (None, le1, w1)"
        using fields g by simp
      from generate_sql_completes [OF this] obtain raw where
        "sql_query le1 = Some (clean_sql raw)" by blast
      then show ?thesis using raised(3) x fields None sq
        by (auto simp: or_Failed_def)
    next
      case (Some y)
      then show ?thesis using raised(3) x fields sq
        by (auto simp: or_Failed_def)
    qed
  qed
next
  case (passed x' le w)
  then show ?thesis using assms(3,4) by simp
next
  case (completed le w w2 a)
  then show ?thesis using assms(3) by simp
next
  case (unsaved x' le w w2)
  then show ?thesis using assms(3) by simp
qed

theorem run_contains_stage_failure_witness:
  "CacheManager_get (cache fresh_world) ''q'' = Inr PNone \<and> \<not> truthy PNone
   \<and> fst (stages env_exec_fails ''q'' (at_try env_exec_fails ''q'' fresh_world))
       = Some (Raised ''no such table'')
   \<and> is_Exception (Raised ''no such table'')
   \<and> (\<exists>r w'. run env_exec_fails ''q'' fresh_world = (Inr r, w')
        \<and> answer r = ''Error: no such table''
        \<and> QueryResponse.sql_query r = ''SELECT 1'')"
proof -
  let ?e = "env_exec_fails"
  have h1: "CacheManager_get (cache fresh_world) ''q'' = Inr PNone" by (rule fresh_miss)
  have h2: "\<not> truthy PNone" by simp
  have h3: "fst (stages ?e ''q'' (at_try ?e ''q'' fresh_world)) = Some (Raised ''no such table'')"
    by (rule env_exec_fails_raises)
  have h4: "is_Exception (Raised ''no such table'')" by simp
  have g: "fst (generate_sql ?e ''q'' (at_try ?e ''q'' fresh_world)) = None
     \<and> sql_query (fst (snd (generate_sql ?e ''q'' (at_try ?e ''q'' fresh_world))))
         = Some ''SELECT 1''"
    by (simp add: run_defs eval_facts)
  from run_contains_stage_failure [OF h1 h2 h3 h4] obtain r w' where
    r: "run ?e ''q'' fresh_world = (Inr r, w')"
    "answer r = ''Error: '' @ str_exn (Raised ''no such table'')"
    "case generate_sql ?e ''q'' (at_try ?e ''q'' fresh_world) of
            (Some y, s) \<Rightarrow> QueryResponse.sql_query r = ''Failed''
          | (None, le1, w1) \<Rightarrow>
              (\<exists>raw. sql_query le1 = Some (clean_sql raw)
                 \<and> QueryResponse.sql_query r =
                     (if clean_sql raw = [] then ''Failed'' else clean_sql raw))"
    by auto
  from r(3) g have "QueryResponse.sql_query r = ''SELECT 1''"
    by (auto split: prod.splits option.splits)
  then show ?thesis using h1 h2 h3 h4 r(1,2) by simp
qed

text \<open>
  The claim as stated fails in two ways. When the cleaned SQL is the empty text (the SQL
  backend replies with a bare fence marker, the generation stage completes and logs the
  empty cleaned SQL, the database rejects it), the response carries \<open>Failed\<close>, not the
  cleaned SQL that was produced. And when a stage raises \<open>KeyboardInterrupt\<close>, which
  \<open>except Exception\<close> does not catch, \<open>run\<close> raises it to the caller.
\<close>

theorem run_empty_sql_counterexample:
  "fst (generate_sql env_empty_sql_fails ''q'' (at_try env_empty_sql_fails ''q'' fresh_world))
     = None
   \<and> sql_query (fst (snd (generate_sql env_empty_sql_fails ''q''
         (at_try env_empty_sql_fails ''q'' fresh_world)))) = Some []
   \<and> fst (stages env_empty_sql_fails ''q'' (at_try env_empty_sql_fails ''q'' fresh_world))
       = Some (Raised ''Query was empty'')
   \<and> map_sum str_exn QueryResponse.sql_query (fst (run env_empty_sql_fails ''q'' fresh_world))
       = Inr ''Failed''
   \<and> map_sum str_exn QueryResponse.sql_query (fst (run env_empty_sql_fails ''q'' fresh_world))
       \<noteq> Inr []
   \<and> fst (stages env_interrupted ''q'' (at_try env_interrupted ''q'' fresh_world))
       = Some KeyboardInterrupt
   \<and> fst (run env_interrupted ''q'' fresh_world) = Inl KeyboardInterrupt"
  by (simp add: run_defs eval_facts)

text \<open>
  C10. On a cache miss, if the schema call and the SQL backend return without exception
  and the cleaned reply is empty, then the generation stage completes with the empty
  text as \<open>sql_query\<close> of the log entry, and whatever the later stages do, the
  \<open>QueryResponse\<close> that \<open>run\<close> returns has \<open>Failed\<close> as its \<open>sql_query\<close>. A
  response is returned on every path but the one on which a later stage raises an
  exception that \<open>except Exception\<close> does not catch; there \<open>run\<close> raises that
  exception and returns no response.
\<close>

theorem empty_sql_falls_back:
  assumes "CacheManager_get (cache w0) q = Inr cached" and "\<not> truthy cached"
    and "get_table_info e = Inr schema"
    and "sql_llm e (get_sql_prompt e schema q) = Inr raw"
    and "clean_sql raw = []"
  shows "fst (generate_sql e q (at_try e q w0)) = None
     \<and> sql_query (fst (snd (generate_sql e q (at_try e q w0)))) = Some []
     \<and> (if uncaught (fst (stages e q (at_try e q w0)))
        then \<exists>x. fst (stages e q (at_try e q w0)) = Some x \<and> fst (run e q w0) = Inl x
        else \<exists>r w'. run e q w0 = (Inr r, w') \<and> QueryResponse.sql_query r = ''Failed'')"
proof -
  have g: "fst (generate_sql e q (at_try e q w0)) = None
     \<and> sql_query (fst (snd (generate_sql e q (at_try e q w0)))) = Some []"
    using assms(3-5) by (simp add: generate_sql_def at_try_def world_ops Let_def)
  then obtain le1 w1 where g1: "generate_sql e q (at_try e q w0) = (None, le1, w1)"
    and le1: "sql_query le1 = Some []"
    by (cases "generate_sql e q (at_try e q w0)") auto
  have "if uncaught (fst (stages e q (at_try e q w0)))
        then \<exists>x. fst (stages e q (at_try e q w0)) = Some x \<and> fst (run e q w0) = Inl x
        else \<exists>r w'. run e q w0 = (Inr r, w') \<and> QueryResponse.sql_query r = ''Failed''"
    using assms(1,2)
  proof (cases rule: run_miss_cases [where e = e])
    case (raised x le w)
    from stages_at_try_sql_query [OF raised(1) g1] le1 raised show ?thesis
      by (simp add: or_Failed_def uncaught_def)
  next
    case (passed x le w)
    then show ?thesis by (simp add: uncaught_def)
  next
    case (completed le w w2 a)
    from stages_at_try_sql_query [OF completed(1) g1] le1 completed(1,8) show ?thesis
      by (simp add: or_Failed_def uncaught_def)
  next
    case (unsaved x le w w2)
    from stages_at_try_sql_query [OF unsaved(1) g1] le1 unsaved(1,9) show ?thesis
      by (simp add: or_Failed_def uncaught_def)
  qed
  then show ?thesis using g by simp
qed

lemma eval_clean_fences_only:
  "clean_sql (''```sql'' @ [CHR 0x0A] @ ''  '' @ [CHR 0x0A] @ ''```'') = []"
  by code_simp

theorem empty_sql_falls_back_witness:
  "CacheManager_get (cache fresh_world) ''q'' = Inr PNone \<and> \<not> truthy PNone
   \<and> get_table_info (demo_env (Inr (''```sql'' @ [CHR 0x0A] @ ''  '' @ [CHR 0x0A] @ ''```''))
        (Inr ''[(1,)]'') (Inr ''one'')) = Inr ''orders(id)''
   \<and> sql_llm (demo_env (Inr (''```sql'' @ [CHR 0x0A] @ ''  '' @ [CHR 0x0A] @ ''```''))
        (Inr ''[(1,)]'') (Inr ''one''))
        (get_sql_prompt (demo_env (Inr (''```sql'' @ [CHR 0x0A] @ ''  '' @ [CHR 0x0A] @ ''```''))
           (Inr ''[(1,)]'') (Inr ''one'')) ''orders(id)'' ''q'')
       = Inr (''```sql'' @ [CHR 0x0A] @ ''  '' @ [CHR 0x0A] @ ''```'')
   \<and> clean_sql (''```sql'' @ [CHR 0x0A] @ ''  '' @ [CHR 0x0A] @ ''```'') = []
   \<and> (\<exists>r w'. run (demo_env (Inr (''```sql'' @ [CHR 0x0A] @ ''  '' @ [CHR 0x0A] @ ''```''))
                  (Inr ''[(1,)]'') (Inr ''one'')) ''q'' fresh_world = (Inr r, w')
          \<and> QueryResponse.sql_query r = ''Failed'')"
proof -
  let ?raw = "''```sql'' @ [CHR 0x0A] @ ''  '' @ [CHR 0x0A] @ ''```''"
  let ?e = "demo_env (Inr ?raw) (Inr ''[(1,)]'') (Inr ''one'')"
  have h1: "CacheManager_get (cache fresh_world) ''q'' = Inr PNone" by (rule fresh_miss)
  have h2: "\<not> truthy PNone" by simp
  have h3: "get_table_info ?e = Inr ''orders(id)''" by (simp add: demo_env_def)
  have h4: "sql_llm ?e (get_sql_prompt ?e ''orders(id)'' ''q'') = Inr ?raw"
    by (simp add: demo_env_def)
  have h5: "clean_sql ?raw = []" using eval_clean_fences_only by simp
  have u: "\<not> uncaught (fst (stages ?e ''q'' (at_try ?e ''q'' fresh_world)))"
    using h5 by (simp add: run_defs eval_facts uncaught_def)
  from empty_sql_falls_back [OF h1 h2 h3 h4 h5] u show ?thesis
    using h1 h2 h3 h4 h5 by simp
qed

text \<open>
  C2. Every run on a cache miss appends exactly one execution record to the log file, as
  its last line, and none to the console; the record's \<open>total_duration\<close> is
  \<open>round(t - start_total, 2)\<close> for the last clock reading \<open>t\<close> of the run, taken in the
  \<open>finally\<close> clause, and the first. This holds on every exit path: when the run returns
  a response, whether the stages completed or one of them raised an \<open>Exception\<close>
  (then the response's \<open>execution_time\<close> is that duration), and when the run raises,
  which it does exactly with the exception of a stage that \<open>except Exception\<close> does
  not catch.
\<close>

theorem run_persists_one_record:
  assumes "CacheManager_get (cache w0) q = Inr cached" and "\<not> truthy cached"
  shows "\<exists>le. records (log_file (app_logger (snd (run e q w0))))
           = records (log_file (app_logger w0)) @ [le]
     \<and> last (log_file (app_logger (snd (run e q w0)))) = EXECUTION_RECORD le
     \<and> records (console (app_logger (snd (run e q w0)))) = records (console (app_logger w0))
     \<and> total_duration le
         = elapsed e (clock e (ticks (snd (run e q w0)) - 1)) (clock e (ticks w0))
     \<and> (case fst (run e q w0) of
           Inr r \<Rightarrow> execution_time r = total_duration le
                    \<and> \<not> uncaught (fst (stages e q (at_try e q w0)))
         | Inl x \<Rightarrow> fst (stages e q (at_try e q w0)) = Some x \<and> \<not> is_Exception x)"
  using assms
proof (cases rule: run_miss_cases [where e = e])
  case (raised x le w)
  have "stages e q (fst (at_try e q w0), snd (at_try e q w0)) = (Some x, le, w)"
    using raised(1) by simp
  from stages_frame [OF this] at_try_world [of e q w0] raised show ?thesis
    by (simp add: log_struct_def log_error_def uncaught_def)
next
  case (passed x le w)
  have "stages e q (fst (at_try e q w0), snd (at_try e q w0)) = (Some x, le, w)"
    using passed(1) by simp
  from stages_frame [OF this] at_try_world [of e q w0] passed show ?thesis
    by (simp add: log_struct_def)
next
  case (completed le w w2 a)
  have "stages e q (fst (at_try e q w0), snd (at_try e q w0)) = (None, le, w)"
    using completed(1) by simp
  from stages_frame [OF this] at_try_world [of e q w0] completed(1,8) show ?thesis
    by (simp add: log_struct_def uncaught_def)
next
  case (unsaved x le w w2)
  have "stages e q (fst (at_try e q w0), snd (at_try e q w0)) = (None, le, w)"
    using unsaved(1) by simp
  from stages_frame [OF this] at_try_world [of e q w0] unsaved(1,9) show ?thesis
    by (simp add: log_struct_def log_error_def uncaught_def)
qed

theorem run_persists_one_record_witness:
  "CacheManager_get (cache fresh_world) ''q'' = Inr PNone \<and> \<not> truthy PNone
   \<and> fst (run env_interrupted ''q'' fresh_world) = Inl KeyboardInterrupt
   \<and> (\<exists>le. records (log_file (app_logger (snd (run env_interrupted ''q'' fresh_world))))
           = records (log_file (app_logger fresh_world)) @ [le]
        \<and> last (log_file (app_logger (snd (run env_interrupted ''q'' fresh_world))))
            = EXECUTION_RECORD le
        \<and> total_duration le
            = elapsed env_interrupted
                (clock env_interrupted (ticks (snd (run env_interrupted ''q'' fresh_world)) - 1))
                (clock env_interrupted (ticks fresh_world)))
   \<and> (\<exists>r. fst (run env_exec_fails ''q'' fresh_world) = Inr r)
   \<and> (\<exists>le. records (log_file (app_logger (snd (run env_exec_fails ''q'' fresh_world))))
           = records (log_file (app_logger fresh_world)) @ [le]
        \<and> last (log_file (app_logger (snd (run env_exec_fails ''q'' fresh_world))))
            = EXECUTION_RECORD le)"
proof -
  have h1: "CacheManager_get (cache fresh_world) ''q'' = Inr PNone" by (rule fresh_miss)
  have h2: "\<not> truthy PNone" by simp
  have i: "fst (run env_interrupted ''q'' fresh_world) = Inl KeyboardInterrupt"
    by (simp add: run_defs eval_facts)
  have r: "\<exists>r. fst (run env_exec_fails ''q'' fresh_world) = Inr r"
    by (simp add: run_defs eval_facts)
  from run_persists_one_record [OF h1 h2, of env_interrupted]
    run_persists_one_record [OF h1 h2, of env_exec_fails] h1 h2 i r
  show ?thesis by blast
qed

text \<open>
  C3, as the code has it. For a run of the pipeline (its cache file is \<open>CACHE_FILE\<close>)
  on a cache miss in which every stage completes or raises an \<open>Exception\<close>, the
  execution record that the run appends satisfies exactly one of: \<open>success\<close> is true,
  \<open>final_answer\<close> is set and \<open>error\<close> is unset; or \<open>success\<close> is false and \<open>error\<close>
  is set. The first holds exactly when all three stages completed.
\<close>

theorem finalized_log_invariant:
  assumes "CacheManager_get (cache w0) q = Inr cached" and "\<not> truthy cached"
    and "file_path (cache w0) = CACHE_FILE"
    and "\<not> uncaught (fst (stages e q (at_try e q w0)))"
  shows "\<exists>r w' le. run e q w0 = (Inr r, w')
     \<and> records (log_file (app_logger w')) = records (log_file (app_logger w0)) @ [le]
     \<and> ((success le \<and> final_answer le \<noteq> None \<and> error le = None)
           \<noteq> (\<not> success le \<and> error le \<noteq> None))
     \<and> (success le \<longleftrightarrow> fst (stages e q (at_try e q w0)) = None)"
  using assms(1,2)
proof (cases rule: run_miss_cases [where e = e])
  case (raised x le w)
  have st: "stages e q (new_log_entry e q, snd (at_try e q w0)) = (Some x, le, w)"
    using raised(1) by (simp add: at_try_def)
  from stages_frame [OF st] stages_raised [OF st] at_try_world [of e q w0] raised show ?thesis
    by (simp add: log_struct_def log_error_def new_log_entry_def)
next
  case (passed x le w)
  then show ?thesis using assms(4) by (simp add: uncaught_def)
next
  case (completed le w w2 a)
  have st: "stages e q (new_log_entry e q, snd (at_try e q w0)) = (None, le, w)"
    using completed(1) by (simp add: at_try_def)
  from stages_frame [OF st] at_try_world [of e q w0] completed show ?thesis
    by (simp add: log_struct_def new_log_entry_def)
next
  case (unsaved x le w w2)
  then show ?thesis using assms(3) CACHE_FILE_no_nul by simp
qed

theorem finalized_log_invariant_witness:
  "CacheManager_get (cache fresh_world) ''q'' = Inr PNone \<and> \<not> truthy PNone
   \<and> file_path (cache fresh_world) = CACHE_FILE
   \<and> \<not> uncaught (fst (stages env_ok ''q'' (at_try env_ok ''q'' fresh_world)))
   \<and> (\<exists>r w' le. run env_ok ''q'' fresh_world = (Inr r, w')
     \<and> records (log_file (app_logger w')) = records (log_file (app_logger fresh_world)) @ [le]
     \<and> ((success le \<and> final_answer le \<noteq> None \<and> error le = None)
           \<noteq> (\<not> success le \<and> error le \<noteq> None))
     \<and> (success le \<longleftrightarrow> fst (stages env_ok ''q'' (at_try env_ok ''q'' fresh_world)) = None))"
proof -
  have h1: "CacheManager_get (cache fresh_world) ''q'' = Inr PNone" by (rule fresh_miss)
  have h2: "\<not> truthy PNone" by simp
  have h4: "\<not> uncaught (fst (stages env_ok ''q'' (at_try env_ok ''q'' fresh_world)))"
    using env_ok_completes [of "''q''"] by (simp add: uncaught_def)
  from finalized_log_invariant [OF h1 h2 fresh_path h4] h1 h2 fresh_path h4
  show ?thesis by blast
qed

text \<open>
  The claim as stated fails when a stage raises an exception that \<open>except Exception\<close>
  does not catch: on \<open>KeyboardInterrupt\<close> in the database call the \<open>finally\<close> clause
  logs a record with \<open>success\<close> false and \<open>error\<close> unset, which is neither of the two.
\<close>

theorem finalized_log_interrupt_counterexample:
  "CacheManager_get (cache fresh_world) ''q'' = Inr PNone
   \<and> fst (stages env_interrupted ''q'' (at_try env_interrupted ''q'' fresh_world))
       = Some KeyboardInterrupt
   \<and> fst (run env_interrupted ''q'' fresh_world) = Inl KeyboardInterrupt
   \<and> map success (records (log_file (app_logger (snd (run env_interrupted ''q'' fresh_world)))))
       = [False]
   \<and> map error (records (log_file (app_logger (snd (run env_interrupted ''q'' fresh_world)))))
       = [None]"
  by (simp add: run_defs eval_facts)

text \<open>
  C4. On a cache miss, when one of the three stages raises, the run leaves the cache
  manager (its in-memory map included) and the file system as they were. Conversely, a
  run of any kind that changes either of them was a cache miss on which all three
  stages completed.
\<close>

theorem failed_run_leaves_cache:
  "(CacheManager_get (cache w0) q = Inr cached \<and> \<not> truthy cached
      \<and> fst (stages e q (at_try e q w0)) = Some x
    \<longrightarrow> cache (snd (run e q w0)) = cache w0 \<and> disk (snd (run e q w0)) = disk w0)
   \<and> (cache (snd (run e q w0)) \<noteq> cache w0 \<or> disk (snd (run e q w0)) \<noteq> disk w0
    \<longrightarrow> (\<exists>v. CacheManager_get (cache w0) q = Inr v \<and> \<not> truthy v)
        \<and> fst (stages e q (at_try e q w0)) = None)"
proof (intro conjI impI)
  assume "CacheManager_get (cache w0) q = Inr cached \<and> \<not> truthy cached
      \<and> fst (stages e q (at_try e q w0)) = Some x"
  then show "cache (snd (run e q w0)) = cache w0" "disk (snd (run e q w0)) = disk w0"
    using run_raised_frame by blast+
next
  assume ch: "cache (snd (run e q w0)) \<noteq> cache w0 \<or> disk (snd (run e q w0)) \<noteq> disk w0"
  then show miss: "\<exists>v. CacheManager_get (cache w0) q = Inr v \<and> \<not> truthy v"
    using run_not_miss_frame [of w0 q e] by blast
  then obtain v where v: "CacheManager_get (cache w0) q = Inr v" "\<not> truthy v" by blast
  show "fst (stages e q (at_try e q w0)) = None"
  proof (cases "fst (stages e q (at_try e q w0))")
    case (Some y)
    from run_raised_frame [OF v this] ch show ?thesis by simp
  qed simp
qed

lemma env_ok_changes_cache: "cache (snd (run env_ok ''q'' fresh_world)) \<noteq> cache fresh_world"
  by (simp add: run_defs eval_facts)

theorem failed_run_leaves_cache_witness:
  "CacheManager_get (cache fresh_world) ''q'' = Inr PNone \<and> \<not> truthy PNone
   \<and> fst (stages env_exec_fails ''q'' (at_try env_exec_fails ''q'' fresh_world))
       = Some (Raised ''no such table'')
   \<and> cache (snd (run env_exec_fails ''q'' fresh_world)) = cache fresh_world
   \<and> disk (snd (run env_exec_fails ''q'' fresh_world)) = disk fresh_world
   \<and> cache (snd (run env_ok ''q'' fresh_world)) \<noteq> cache fresh_world
   \<and> (\<exists>v. CacheManager_get (cache fresh_world) ''q'' = Inr v \<and> \<not> truthy v)
   \<and> fst (stages env_ok ''q'' (at_try env_ok ''q'' fresh_world)) = None"
proof -
  have h1: "CacheManager_get (cache fresh_world) ''q'' = Inr PNone" by (rule fresh_miss)
  have h2: "\<not> truthy PNone" by simp
  show ?thesis
    using failed_run_leaves_cache [of fresh_world "''q''" PNone env_exec_fails "Raised ''no such table''"]
      failed_run_leaves_cache [of fresh_world "''q''" PNone env_ok "Raised ''no such table''"]
      h1 h2 env_exec_fails_raises env_ok_changes_cache
    by blast
qed

section \<open>Cache hits\<close>

lemma py_isspace_lower: "py_isspace (py_lower c) = py_isspace c"
proof -
  have "(of_char c :: nat) < 256" by (rule nat_of_char_less_256)
  then show ?thesis
    by (auto simp: py_isspace_def py_lower_def Let_def of_char_of)
qed

lemma strip_lower: "strip (lower s) = lower (strip s)"
proof -
  have c: "py_isspace \<circ> py_lower = py_isspace"
    by (rule ext) (simp add: py_isspace_lower)
  show ?thesis
    by (simp add: strip_def lower_def dropWhile_map rev_map c)
qed

lemma strip_pad:
  assumes "\<forall>c\<in>set pre. py_isspace c" and "\<forall>c\<in>set post. py_isspace c"
  shows "strip (pre @ core @ post) = strip core"
proof -
  have pre: "dropWhile py_isspace (pre @ core @ post) = dropWhile py_isspace (core @ post)"
    using assms(1) by (simp add: dropWhile_append2)
  have post: "dropWhile py_isspace post = []" using assms(2) by simp
  show ?thesis
  proof (cases "\<forall>c\<in>set core. py_isspace c")
    case True
    then have a: "dropWhile py_isspace core = []" by simp
    have b: "dropWhile py_isspace (core @ post) = []"
      using True assms(2) by simp
    show ?thesis unfolding strip_def pre a b by simp
  next
    case False
    have a: "dropWhile py_isspace (core @ post) = dropWhile py_isspace core @ post"
      by (simp only: dropWhile_append False if_False)
    have b: "dropWhile py_isspace (rev post @ rev (dropWhile py_isspace core))
        = dropWhile py_isspace (rev (dropWhile py_isspace core))"
      by (rule dropWhile_append2) (use assms(2) in simp)
    show ?thesis unfolding strip_def pre a rev_append b by simp
  qed
qed

lemma variant_key:
  assumes "\<forall>c\<in>set pre. py_isspace c" and "\<forall>c\<in>set post. py_isspace c"
    and "lower core = lower q"
  shows "lower (strip (pre @ core @ post)) = lower (strip q)"
  using strip_pad [OF assms(1,2)] strip_lower [of core] strip_lower [of q] assms(3) by simp

lemma stages_completed_nonempty:
  assumes "stages e q (le0, w) = (None, le, w')" and "rejects_empty_statement e"
  shows "sql_query le \<noteq> Some []"
  using assms(1)
proof (cases rule: stages_cases)
  case (ans le1 w1 le2 w2)
  from execute_sql_completes [OF ans(2)] obtain raw v where
    ex: "db_run e (sql_query le1) = Inr raw" "py_eval e raw = Inr v" by blast
  have "sql_query le = sql_query le1"
    using execute_sql_frame [OF ans(2)] generate_answer_frame [OF ans(3)] by simp
  then show ?thesis using ex assms(2) by (auto simp: rejects_empty_statement_def)
qed simp_all

lemma try_body_stores:
  assumes "enabled (cache w0)" and "CacheManager_get (cache w0) q = Inr cached"
    and "file_path (cache w0) = CACHE_FILE"
    and "stages e q (at_try e q w0) = (None, le, w)"
    and "try_body e q (at_try e q w0) = (None, le', w2)"
  shows "\<exists>a sql kvs. final_answer le = Some a \<and> sql_query le = Some sql
       \<and> cache_obj (cache w2) = PDict (AList.update (lower (strip q))
            (PDict [(''answer'', PStr a), (''sql_query'', PStr sql)]) kvs)
       \<and> enabled (cache w2)"
proof -
  have st: "stages e q (fst (at_try e q w0), snd (at_try e q w0)) = (None, le, w)"
    using assms(4) by simp
  from stages_completed [OF st] obtain a sql where
    a: "final_answer le = Some a" "sql_query le = Some sql" by blast
  have c: "cache w = cache w0"
    using stages_frame [OF st] at_try_world [of e q w0] by simp
  from get_dict [OF assms(2,1)] obtain kvs where kvs: "cache_obj (cache w0) = PDict kvs" by blast
  have en: "enabled (cache w)" using c assms(1) by simp
  have ob: "cache_obj (cache w) = PDict kvs" using c kvs by simp
  have nul: "CHR 0x00 \<notin> set (file_path (cache w))"
    using c assms(3) CACHE_FILE_no_nul by simp
  have tb: "try_body e q (at_try e q w0) = save_to_cache q (le, w)"
    using assms(4) by (simp add: try_body_def seq_def)
  from save_to_cache_enabled [OF en ob nul, of q le] obtain w2' where
    w2': "save_to_cache q (le, w) = (None, le, w2')" "enabled (cache w2')"
    "cache_obj (cache w2') = PDict (AList.update (lower (strip q))
                 (PDict [(''answer'', opt_str (final_answer le)),
                         (''sql_query'', opt_str (sql_query le))]) kvs)"
    by blast
  have "w2 = w2'" using tb w2'(1) assms(5) by simp
  then have "final_answer le = Some a \<and> sql_query le = Some sql
       \<and> cache_obj (cache w2) = PDict (AList.update (lower (strip q))
            (PDict [(''answer'', PStr a), (''sql_query'', PStr sql)]) kvs)
       \<and> enabled (cache w2)"
    using a w2'(2,3) by (simp add: opt_str_def)
  then show ?thesis by blast
qed

lemma run_hit:
  assumes "enabled (cache w)"
    and "cache_obj (cache w) = PDict (AList.update (lower (strip q'))
            (PDict [(''answer'', PStr a), (''sql_query'', PStr sql)]) kvs)"
  shows "run e q' w =
     (Inr \<lparr>question = q', answer = a, QueryResponse.sql_query = sql,
           execution_time = 0, from_cache = True\<rparr>,
      info (ProcessingCached q') (snd (time_time e w)))"
  using assms
  by (simp add: run_def CacheManager_get_def time_time_def info_def Let_def update_conv'
      QueryResponse_init_def)

text \<open>
  C5. Let a run of the pipeline (its cache file is \<open>CACHE_FILE\<close>) with the cache enabled
  miss the cache on question \<open>q\<close> and complete all three stages, on a database that
  rejects the empty statement. Then a second run, with any collaborators, of any variant
  of \<open>q\<close> (\<open>q\<close> up to letter case, between any leading and trailing whitespace) is a
  cache hit: it returns the answer and the \<open>sql_query\<close> of the first response, with
  \<open>execution_time = 0\<close> and \<open>from_cache = True\<close>, makes no call to the database or to
  a model backend, leaves cache and file system alone and logs no execution record.
\<close>

theorem cache_hit_on_variant:
  assumes "enabled (cache w0)" and "file_path (cache w0) = CACHE_FILE"
    and "CacheManager_get (cache w0) q = Inr cached" and "\<not> truthy cached"
    and "fst (stages e q (at_try e q w0)) = None"
    and "rejects_empty_statement e"
    and "list_all py_isspace pre" and "list_all py_isspace post"
    and "lower core = lower q"
  shows "\<exists>r1. fst (run e q w0) = Inr r1
     \<and> sql_query (fst (snd (stages e q (at_try e q w0)))) = Some (QueryResponse.sql_query r1)
     \<and> run e2 (pre @ core @ post) (snd (run e q w0)) =
         (Inr \<lparr>question = pre @ core @ post, answer = answer r1,
               QueryResponse.sql_query = QueryResponse.sql_query r1,
               execution_time = 0, from_cache = True\<rparr>,
          info (ProcessingCached (pre @ core @ post)) (snd (time_time e2 (snd (run e q w0)))))
     \<and> calls (snd (run e2 (pre @ core @ post) (snd (run e q w0)))) = calls (snd (run e q w0))
     \<and> cache (snd (run e2 (pre @ core @ post) (snd (run e q w0)))) = cache (snd (run e q w0))
     \<and> disk (snd (run e2 (pre @ core @ post) (snd (run e q w0)))) = disk (snd (run e q w0))
     \<and> records (log_file (app_logger (snd (run e2 (pre @ core @ post) (snd (run e q w0))))))
         = records (log_file (app_logger (snd (run e q w0))))"
  using assms(3,4)
proof (cases rule: run_miss_cases [where e = e])
  case (raised x le w)
  then show ?thesis using assms(5) by simp
next
  case (passed x le w)
  then show ?thesis using assms(5) by simp
next
  case (unsaved x le w w2)
  then show ?thesis using assms(2) CACHE_FILE_no_nul by simp
next
  case (completed le w w2 a)
  define w1 where "w1 = snd (run e q w0)"
  from try_body_stores [OF assms(1,3,2) completed(1,2)] completed(6) obtain sql kvs where
    s: "sql_query le = Some sql"
    "cache_obj (cache w2) = PDict (AList.update (lower (strip q))
            (PDict [(''answer'', PStr a), (''sql_query'', PStr sql)]) kvs)"
    "enabled (cache w2)"
    by auto
  have "stages e q (fst (at_try e q w0), snd (at_try e q w0)) = (None, le, w)"
    using completed(1) by simp
  from stages_completed_nonempty [OF this assms(6)] s(1) have ne: "sql \<noteq> []" by simp
  have w1: "w1 = w2\<lparr>ticks := Suc (ticks w),
            app_logger := log_struct
              (le\<lparr>total_duration := elapsed e (clock e (ticks w)) (clock e (ticks w0))\<rparr>)
              (app_logger w)\<rparr>"
    using completed(8) by (simp add: w1_def)
  obtain r1 where r1: "fst (run e q w0) = Inr r1" "answer r1 = a"
    "QueryResponse.sql_query r1 = sql"
    using completed(8) s(1) ne by (simp add: or_Failed_def)
  have k: "lower (strip (pre @ core @ post)) = lower (strip q)"
    using variant_key [of pre post core q] assms(7,8,9) by (simp add: list_all_iff)
  have en: "enabled (cache w1)" using w1 s(3) by simp
  have ob: "cache_obj (cache w1) = PDict (AList.update (lower (strip (pre @ core @ post)))
            (PDict [(''answer'', PStr a), (''sql_query'', PStr sql)]) kvs)"
    using w1 s(2) k by simp
  have hit: "run e2 (pre @ core @ post) w1 =
     (Inr \<lparr>question = pre @ core @ post, answer = a, QueryResponse.sql_query = sql,
           execution_time = 0, from_cache = True\<rparr>,
      info (ProcessingCached (pre @ core @ post)) (snd (time_time e2 w1)))"
    using run_hit [OF en ob] .
  have sq: "sql_query (fst (snd (stages e q (at_try e q w0)))) = Some sql"
    using completed(1) s(1) by simp
  have "fst (run e q w0) = Inr r1
     \<and> sql_query (fst (snd (stages e q (at_try e q w0)))) = Some (QueryResponse.sql_query r1)
     \<and> run e2 (pre @ core @ post) w1 =
         (Inr \<lparr>question = pre @ core @ post, answer = answer r1,
               QueryResponse.sql_query = QueryResponse.sql_query r1,
               execution_time = 0, from_cache = True\<rparr>,
          info (ProcessingCached (pre @ core @ post)) (snd (time_time e2 w1)))
     \<and> calls (snd (run e2 (pre @ core @ post) w1)) = calls w1
     \<and> cache (snd (run e2 (pre @ core @ post) w1)) = cache w1
     \<and> disk (snd (run e2 (pre @ core @ post) w1)) = disk w1
     \<and> records (log_file (app_logger (snd (run e2 (pre @ core @ post) w1))))
         = records (log_file (app_logger w1))"
    using hit r1 sq by (simp add: world_ops)
  then show ?thesis unfolding w1_def by blast
qed

lemma env_mysql_rejects: "rejects_empty_statement env_mysql"
  by (simp add: rejects_empty_statement_def demo_env_def)

lemma env_mysql_completes:
  "fst (stages env_mysql ''what is x?'' (at_try env_mysql ''what is x?'' fresh_world)) = None"
  by (simp add: run_defs eval_facts)

theorem cache_hit_on_variant_witness:
  "enabled (cache fresh_world) \<and> file_path (cache fresh_world) = CACHE_FILE
   \<and> CacheManager_get (cache fresh_world) ''what is x?'' = Inr PNone \<and> \<not> truthy PNone
   \<and> fst (stages env_mysql ''what is x?'' (at_try env_mysql ''what is x?'' fresh_world)) = None
   \<and> rejects_empty_statement env_mysql
   \<and> list_all py_isspace '' '' \<and> lower ''What Is X?'' = lower ''what is x?''
   \<and> (\<exists>r1. fst (run env_mysql ''what is x?'' fresh_world) = Inr r1
        \<and> QueryResponse.sql_query r1 = ''SELECT 1''
        \<and> fst (run env_down ('' '' @ ''What Is X?'' @ '' '')
                 (snd (run env_mysql ''what is x?'' fresh_world)))
            = Inr \<lparr>question = '' '' @ ''What Is X?'' @ '' '', answer = answer r1,
                   QueryResponse.sql_query = QueryResponse.sql_query r1,
                   execution_time = 0, from_cache = True\<rparr>
        \<and> calls (snd (run env_down ('' '' @ ''What Is X?'' @ '' '')
                    (snd (run env_mysql ''what is x?'' fresh_world))))
            = calls (snd (run env_mysql ''what is x?'' fresh_world)))"
proof -
  have h1: "enabled (cache fresh_world)" by (simp add: fresh_world_def)
  have h2: "CacheManager_get (cache fresh_world) ''what is x?'' = Inr PNone" by (rule fresh_miss)
  have h3: "\<not> truthy PNone" by simp
  have sq: "sql_query (fst (snd (stages env_mysql ''what is x?''
              (at_try env_mysql ''what is x?'' fresh_world)))) = Some ''SELECT 1''"
    by (simp add: run_defs eval_facts)
  from cache_hit_on_variant [OF h1 fresh_path h2 h3 env_mysql_completes env_mysql_rejects
      eval_spaces eval_spaces eval_lower_x, of env_down]
  obtain r1 where r: "fst (run env_mysql ''what is x?'' fresh_world) = Inr r1"
    "sql_query (fst (snd (stages env_mysql ''what is x?''
              (at_try env_mysql ''what is x?'' fresh_world)))) = Some (QueryResponse.sql_query r1)"
    "run env_down ('' '' @ ''What Is X?'' @ '' '') (snd (run env_mysql ''what is x?'' fresh_world)) =
         (Inr \<lparr>question = '' '' @ ''What Is X?'' @ '' '', answer = answer r1,
               QueryResponse.sql_query = QueryResponse.sql_query r1,
               execution_time = 0, from_cache = True\<rparr>,
          info (ProcessingCached ('' '' @ ''What Is X?'' @ '' ''))
            (snd (time_time env_down (snd (run env_mysql ''what is x?'' fresh_world)))))"
    "calls (snd (run env_down ('' '' @ ''What Is X?'' @ '' '')
                    (snd (run env_mysql ''what is x?'' fresh_world))))
            = calls (snd (run env_mysql ''what is x?'' fresh_world))"
    by blast
  have "QueryResponse.sql_query r1 = ''SELECT 1''" using r(2) sq by simp
  then show ?thesis
    using h1 fresh_path h2 h3 env_mysql_completes env_mysql_rejects eval_spaces eval_lower_x r
    by auto
qed

text \<open>
  The database matters here. The miss path returns \<open>sql_query or "Failed"\<close> and the hit
  path the stored text, so with a stub database that accepts the empty statement the
  two responses differ.
\<close>

lemma stub_database_divergence:
  "fst (stages env_empty_sql ''q'' (at_try env_empty_sql ''q'' fresh_world)) = None
   \<and> map_sum str_exn QueryResponse.sql_query (fst (run env_empty_sql ''q'' fresh_world))
       = Inr ''Failed''
   \<and> map_sum str_exn from_cache
        (fst (run env_empty_sql ''q'' (snd (run env_empty_sql ''q'' fresh_world)))) = Inr True
   \<and> map_sum str_exn QueryResponse.sql_query
        (fst (run env_empty_sql ''q'' (snd (run env_empty_sql ''q'' fresh_world)))) = Inr []"
  by (simp add: run_defs eval_facts update_conv')

end
